theory Spec2Isabelle
  imports Complex_Main "HOL-Library.Sublist"
begin

section \<open>Python values used by the client\<close>

text \<open>
  Strings are lists of characters. A dictionary whose values are strings is an
  association list read with \<open>map_of\<close> (Python's \<open>d.get(k)\<close>); it is truthy when it
  has an entry. A string, a list and an optional value are truthy when present and
  non-empty.
\<close>

type_synonym pydict = "(string \<times> string) list"

definition dict_get :: "pydict \<Rightarrow> string \<Rightarrow> string option" where
  "dict_get d k = map_of d k"

definition truthy :: "'a list option \<Rightarrow> bool" where
  "truthy v = (case v of None \<Rightarrow> False | Some xs \<Rightarrow> xs \<noteq> [])"

text \<open>
  The body of botocore's error response, \<open>{"Error": {"Code": ..., "Message": ...}}\<close>,
  every level of which may be missing.
\<close>

record error_detail =
  Code :: "string option"
  Message :: "string option"

record error_response =
  Error :: "error_detail option"

text \<open>
  The exceptions that the modelled code raises, catches or lets through. A botocore error
  carries its parsed response (\<open>e.response\<close>) and the message built when it was raised
  (\<open>str(e)\<close>).
\<close>

datatype py_exn =
    ClientError error_response string
  | EventStreamError error_response string
  | RuntimeError string
  | TimeoutError string
  | ValueError string
  | IndexError
  | KeyError string

section \<open>Identifier normalisation (cli.py)\<close>

text \<open>
  \<open>str.split(sep)\<close> scans from the left, cuts at each occurrence of the separator and
  resumes behind it; an empty separator raises \<open>ValueError\<close>. \<open>split_scan\<close> is the scan
  for a separator that is not empty.
\<close>

function split_scan :: "'a list \<Rightarrow> 'a list \<Rightarrow> 'a list list" where
  "split_scan sep [] = [[]]"
| "split_scan sep (c # cs) =
     (if prefix sep (c # cs) then [] # split_scan sep (drop (length sep - 1) cs)
      else (case split_scan sep cs of [] \<Rightarrow> [[c]] | p # ps \<Rightarrow> (c # p) # ps))"
  by pat_completeness auto
termination
  by (relation "measure (\<lambda>(sep, s). length s)") auto

definition py_split :: "string \<Rightarrow> string \<Rightarrow> py_exn + string list" where
  "py_split s sep =
     (if sep = [] then Inl (ValueError ''empty separator'') else Inr (split_scan sep s))"

text \<open>\<open>xs[-1]\<close> and \<open>xs[0]\<close>: both raise \<open>IndexError\<close> on an empty list.\<close>

definition index_last :: "'a list \<Rightarrow> py_exn + 'a" where
  "index_last xs = (if xs = [] then Inl IndexError else Inr (last xs))"

definition index_first :: "'a list \<Rightarrow> py_exn + 'a" where
  "index_first xs = (case xs of [] \<Rightarrow> Inl IndexError | x # _ \<Rightarrow> Inr x)"

definition startswith :: "string \<Rightarrow> string \<Rightarrow> bool" where
  "startswith s p = prefix p s"

definition contains :: "string \<Rightarrow> string \<Rightarrow> bool" where
  "contains s sub = sublist sub s"

text \<open>
  \<open>_extract_alias_id\<close>. The guard is \<open>value and value.startswith(...) and "/alias/" in value\<close>;
  the body of the \<open>try\<close> is \<open>value.split("/alias/")[-1]\<close>, and \<open>except Exception\<close> returns
  the value itself.
\<close>

definition extract_alias_id_try :: "string \<Rightarrow> py_exn + string" where
  "extract_alias_id_try v =
     (case py_split v ''/alias/'' of Inl e \<Rightarrow> Inl e | Inr parts \<Rightarrow> index_last parts)"

definition extract_alias_id :: "string \<Rightarrow> string" where
  "extract_alias_id v =
     (if v \<noteq> [] \<and> startswith v ''arn:aws:bedrock:'' \<and> contains v ''/alias/'' then
        (case extract_alias_id_try v of Inr r \<Rightarrow> r | Inl e \<Rightarrow> v)
      else v)"

text \<open>
  \<open>_extract_agent_id\<close>. The guard asks for \<open>"/agent/"\<close>; the body of the \<open>try\<close> is
  \<open>after = value.split("/agent/")[-1]; return after.split("/")[0]\<close>.
\<close>

definition extract_agent_id_try :: "string \<Rightarrow> py_exn + string" where
  "extract_agent_id_try v =
     (case py_split v ''/agent/'' of Inl e \<Rightarrow> Inl e
      | Inr parts \<Rightarrow>
          (case index_last parts of Inl e \<Rightarrow> Inl e
           | Inr after \<Rightarrow>
               (case py_split after ''/'' of Inl e \<Rightarrow> Inl e
                | Inr segs \<Rightarrow> index_first segs)))"

definition extract_agent_id :: "string \<Rightarrow> string" where
  "extract_agent_id v =
     (if v \<noteq> [] \<and> startswith v ''arn:aws:bedrock:'' \<and> contains v ''/agent/'' then
        (case extract_agent_id_try v of Inr r \<Rightarrow> r | Inl e \<Rightarrow> v)
      else v)"


section \<open>The remote service and the runtime, as the client sees them\<close>

text \<open>
  A response of the control plane is a dictionary; the record has the keys the client
  reads, each of which may be missing.
\<close>

record response =
  agent :: "pydict option"
  agents :: "pydict list option"
  agentSummaries :: "pydict list option"
  agentAliasSummaries :: "pydict list option"
  agentAliases :: "pydict list option"
  nextToken :: "string option"

text \<open>\<open>AgentConfig\<close>, and the keyword arguments of the creation call.\<close>

record AgentConfig =
  region :: string
  agent_name :: string
  foundation_model :: string
  instruction :: string
  role_arn :: string
  description :: string
  idle_ttl_seconds :: int

record create_agent_kwargs =
  agentName :: string
  instruction_kw :: string
  foundationModel :: string
  description_kw :: string
  idleSessionTTLInSeconds :: int
  agentResourceRoleArn :: string
  clientToken :: string

text \<open>
  An event of the completion stream is a dictionary that may hold a \<open>chunk\<close> (itself a
  dictionary that may hold \<open>bytes\<close>) and may hold a \<open>finalResponse\<close> (that may hold
  \<open>text\<close>): the outer option is the presence of the key, the inner one the presence of
  the value. Iterating the stream yields its events and may then raise.
\<close>

record event =
  chunk :: "string option option"
  finalResponse :: "string option option"

datatype event_stream = EventStream "event list" "py_exn option"

record invoke_response =
  completion :: "event_stream option"

record invoke_agent_kwargs =
  agentId :: string
  agentAliasId :: string
  inputText :: string
  sessionId :: string
  enableTrace :: bool

text \<open>
  Everything outside the two source files: the calls of the two boto3 clients, the clock,
  \<open>time.sleep\<close>, \<open>uuid.uuid4\<close> and the codec of \<open>bytes\<close>. Calls that touch the world take
  its state \<open>'s\<close> and return the new one; a call that raises returns \<open>Inl\<close>. The optional
  argument of the list calls is the \<open>nextToken\<close> keyword, passed only when there is a
  token.
\<close>

record 's env =
  api_list_agents :: "int \<Rightarrow> string option \<Rightarrow> 's \<Rightarrow> (py_exn + response) \<times> 's"
  api_get_agent :: "string \<Rightarrow> 's \<Rightarrow> (py_exn + response) \<times> 's"
  api_create_agent :: "create_agent_kwargs \<Rightarrow> 's \<Rightarrow> (py_exn + response) \<times> 's"
  api_prepare_agent :: "string \<Rightarrow> 's \<Rightarrow> (py_exn + response) \<times> 's"
  api_list_agent_aliases ::
    "string \<Rightarrow> int \<Rightarrow> string option \<Rightarrow> 's \<Rightarrow> (py_exn + response) \<times> 's"
  api_invoke_agent :: "invoke_agent_kwargs \<Rightarrow> 's \<Rightarrow> (py_exn + invoke_response) \<times> 's"
  uuid4 :: "'s \<Rightarrow> string \<times> 's"
  time_time :: "'s \<Rightarrow> real \<times> 's"
  time_sleep :: "int \<Rightarrow> 's \<Rightarrow> 's"
  bytes_decode :: "string \<Rightarrow> py_exn + string"
  bytes_str :: "string \<Rightarrow> string"

text \<open>
  botocore declares \<open>class EventStreamError(ClientError)\<close>, so a handler
  \<open>except ClientError\<close> also receives the errors raised by the event stream.
\<close>

fun isinstance_ClientError :: "py_exn \<Rightarrow> bool" where
  "isinstance_ClientError (ClientError r m) = True"
| "isinstance_ClientError (EventStreamError r m) = True"
| "isinstance_ClientError e = False"

fun isinstance_EventStreamError :: "py_exn \<Rightarrow> bool" where
  "isinstance_EventStreamError (EventStreamError r m) = True"
| "isinstance_EventStreamError e = False"

text \<open>\<open>getattr(e, "response", {}).get("Error", {}).get("Code")\<close>.\<close>

fun error_code :: "py_exn \<Rightarrow> string option" where
  "error_code (ClientError r m) = (case Error r of None \<Rightarrow> None | Some d \<Rightarrow> Code d)"
| "error_code (EventStreamError r m) = (case Error r of None \<Rightarrow> None | Some d \<Rightarrow> Code d)"
| "error_code e = None"

fun exn_str :: "py_exn \<Rightarrow> string" where
  "exn_str (ClientError r m) = m"
| "exn_str (EventStreamError r m) = m"
| "exn_str (RuntimeError m) = m"
| "exn_str (TimeoutError m) = m"
| "exn_str (ValueError m) = m"
| "exn_str IndexError = []"
| "exn_str (KeyError k) = [CHR 0x27] @ k @ [CHR 0x27]"

text \<open>\<open>a or b\<close> on optional lists, \<open>a or []\<close>, and the text of an optional string in an f-string.\<close>

definition or_else :: "'a list option \<Rightarrow> 'a list option \<Rightarrow> 'a list option" where
  "or_else a b = (if truthy a then a else b)"

definition or_list :: "'a list option \<Rightarrow> 'a list \<Rightarrow> 'a list" where
  "or_list a d = (case a of None \<Rightarrow> d | Some xs \<Rightarrow> if xs \<noteq> [] then xs else d)"

definition format_opt :: "string option \<Rightarrow> string" where
  "format_opt v = (case v of None \<Rightarrow> ''None'' | Some x \<Rightarrow> x)"

section \<open>Control plane (agent\_manager.py)\<close>

text \<open>
  The items of one page: \<open>resp.get("agents") or resp.get("agentSummaries") or []\<close> for
  agents, \<open>resp.get("agentAliasSummaries") or resp.get("agentAliases") or []\<close> for
  aliases.
\<close>

definition agent_items :: "response \<Rightarrow> pydict list" where
  "agent_items resp = or_list (or_else (agents resp) (agentSummaries resp)) []"

definition alias_items :: "response \<Rightarrow> pydict list" where
  "alias_items resp = or_list (or_else (agentAliasSummaries resp) (agentAliases resp)) []"

text \<open>
  \<open>list_agents\<close>: the \<open>while True\<close> loop, with the list collected so far and the token of
  the last response. The loop ends only at a response without a truthy token, so it is a
  partial function: \<open>None\<close> is a run that never returns.
\<close>

partial_function (option) list_agents_loop ::
  "'s env \<Rightarrow> int \<Rightarrow> pydict list \<Rightarrow> string option \<Rightarrow> 's
    \<Rightarrow> ((py_exn + pydict list) \<times> 's) option"
where
  "list_agents_loop E max_results acc token s =
     (case api_list_agents E max_results (if truthy token then token else None) s of
        (Inl e, s1) \<Rightarrow> Some (Inl e, s1)
      | (Inr resp, s1) \<Rightarrow>
          (let items = agent_items resp;
               acc' = acc @ items;
               token' = nextToken resp
           in if \<not> truthy token' then Some (Inr acc', s1)
              else list_agents_loop E max_results acc' token' s1))"

definition list_agents ::
  "'s env \<Rightarrow> int \<Rightarrow> 's \<Rightarrow> ((py_exn + pydict list) \<times> 's) option" where
  "list_agents E max_results s = list_agents_loop E max_results [] None s"

text \<open>\<open>find_agent_by_name\<close> calls \<open>list_agents()\<close> with the default page size 100.\<close>

definition find_agent_by_name ::
  "'s env \<Rightarrow> string \<Rightarrow> 's \<Rightarrow> ((py_exn + pydict option) \<times> 's) option" where
  "find_agent_by_name E name s =
     (case list_agents E 100 s of
        None \<Rightarrow> None
      | Some (Inl e, s1) \<Rightarrow> Some (Inl e, s1)
      | Some (Inr as, s1) \<Rightarrow>
          Some (Inr (find (\<lambda>a. dict_get a ''agentName'' = Some name) as), s1))"

definition get_agent :: "'s env \<Rightarrow> string \<Rightarrow> 's \<Rightarrow> (py_exn + pydict) \<times> 's" where
  "get_agent E agent_id s =
     (case api_get_agent E agent_id s of
        (Inl e, s1) \<Rightarrow> (Inl e, s1)
      | (Inr resp, s1) \<Rightarrow>
          (case agent resp of None \<Rightarrow> (Inl (KeyError ''agent''), s1)
           | Some a \<Rightarrow> (Inr a, s1)))"

text \<open>
  \<open>create_agent\<close>. Only a \<open>ClientError\<close> is caught; on the code \<open>ConflictException\<close> the
  agent is looked up by name, and when the lookup gives nothing usable the bare \<open>raise\<close>
  re-raises the caught error. An exception raised by the lookup itself replaces it.
\<close>

definition create_kwargs :: "AgentConfig \<Rightarrow> string \<Rightarrow> create_agent_kwargs" where
  "create_kwargs cfg token =
     \<lparr>agentName = agent_name cfg, instruction_kw = instruction cfg,
      foundationModel = foundation_model cfg, description_kw = description cfg,
      idleSessionTTLInSeconds = idle_ttl_seconds cfg,
      agentResourceRoleArn = role_arn cfg, clientToken = token\<rparr>"

definition create_agent ::
  "'s env \<Rightarrow> AgentConfig \<Rightarrow> 's \<Rightarrow> ((py_exn + pydict) \<times> 's) option" where
  "create_agent E cfg s =
     (case uuid4 E s of (token, s0) \<Rightarrow>
      (case api_create_agent E (create_kwargs cfg token) s0 of
         (Inr resp, s1) \<Rightarrow>
           (case agent resp of None \<Rightarrow> Some (Inl (KeyError ''agent''), s1)
            | Some a \<Rightarrow> Some (Inr a, s1))
       | (Inl e, s1) \<Rightarrow>
           if isinstance_ClientError e then
             if error_code e = Some ''ConflictException'' then
               (case find_agent_by_name E (agent_name cfg) s1 of
                  None \<Rightarrow> None
                | Some (Inl e', s2) \<Rightarrow> Some (Inl e', s2)
                | Some (Inr existing, s2) \<Rightarrow>
                    (case existing of
                       None \<Rightarrow> Some (Inl e, s2)
                     | Some ex \<Rightarrow>
                         if ex \<noteq> [] \<and> truthy (dict_get ex ''agentId'') then
                           (case dict_get ex ''agentId'' of
                              None \<Rightarrow> Some (Inl (KeyError ''agentId''), s2)
                            | Some i \<Rightarrow> Some (get_agent E i s2))
                         else Some (Inl e, s2)))
             else Some (Inl e, s1)
           else Some (Inl e, s1)))"

definition prepare_agent :: "'s env \<Rightarrow> string \<Rightarrow> 's \<Rightarrow> (py_exn + response) \<times> 's" where
  "prepare_agent E agent_id s = api_prepare_agent E agent_id s"

text \<open>
  \<open>wait_for_status\<close>: the loop \<open>while time.time() - start < timeout_s\<close>. The clock is read
  at the head of every round; \<open>time.sleep\<close> raises \<open>ValueError\<close> for a negative length.
  \<open>None\<close> is a run that never returns.
\<close>

partial_function (option) wait_loop ::
  "'s env \<Rightarrow> string \<Rightarrow> string \<Rightarrow> int \<Rightarrow> int \<Rightarrow> real \<Rightarrow> 's
    \<Rightarrow> ((py_exn + string) \<times> 's) option"
where
  "wait_loop E agent_id desired timeout_s poll_s start s =
     (case time_time E s of (now, s0) \<Rightarrow>
        if now - start < of_int timeout_s then
          (case api_get_agent E agent_id s0 of
             (Inl e, s1) \<Rightarrow> Some (Inl e, s1)
           | (Inr resp, s1) \<Rightarrow>
               (case agent resp of
                  None \<Rightarrow> Some (Inl (KeyError ''agent''), s1)
                | Some a \<Rightarrow>
                    (let status = dict_get a ''agentStatus'' in
                     if status = Some desired then Some (Inr desired, s1)
                     else if status = Some ''FAILED'' \<or> status = Some ''DELETING'' then
                       Some (Inl (RuntimeError (''Agent moved to terminal state: ''
                                                @ format_opt status)), s1)
                     else if poll_s < 0 then
                       Some (Inl (ValueError ''sleep length must be non-negative''), s1)
                     else wait_loop E agent_id desired timeout_s poll_s start
                            (time_sleep E poll_s s1))))
        else
          Some (Inl (TimeoutError (''Timed out waiting for agent '' @ agent_id
                                   @ '' to reach '' @ desired)), s0))"

definition wait_for_status ::
  "'s env \<Rightarrow> string \<Rightarrow> string \<Rightarrow> int \<Rightarrow> int \<Rightarrow> 's \<Rightarrow> ((py_exn + string) \<times> 's) option"
where
  "wait_for_status E agent_id desired timeout_s poll_s s =
     (case time_time E s of (start, s0) \<Rightarrow>
        wait_loop E agent_id desired timeout_s poll_s start s0)"

text \<open>
  \<open>prepare_cmd\<close> of cli.py: \<open>m.prepare_agent(agent_id)\<close>, then
  \<open>m.wait_for_status(agent_id, "PREPARED")\<close> with the defaults 600 and 10.
\<close>

definition prepare_cmd ::
  "'s env \<Rightarrow> string \<Rightarrow> 's \<Rightarrow> ((py_exn + string) \<times> 's) option" where
  "prepare_cmd E agent_id s =
     (case prepare_agent E agent_id s of
        (Inl e, s1) \<Rightarrow> Some (Inl e, s1)
      | (Inr ack, s1) \<Rightarrow> wait_for_status E agent_id ''PREPARED'' 600 10 s1)"

text \<open>\<open>list_aliases\<close>: the same loop over \<open>list_agent_aliases\<close>, with its own two keys.\<close>

partial_function (option) list_aliases_loop ::
  "'s env \<Rightarrow> string \<Rightarrow> int \<Rightarrow> pydict list \<Rightarrow> string option \<Rightarrow> 's
    \<Rightarrow> ((py_exn + pydict list) \<times> 's) option"
where
  "list_aliases_loop E agent_id max_results acc token s =
     (case api_list_agent_aliases E agent_id max_results
             (if truthy token then token else None) s of
        (Inl e, s1) \<Rightarrow> Some (Inl e, s1)
      | (Inr resp, s1) \<Rightarrow>
          (let items = alias_items resp;
               acc' = acc @ items;
               token' = nextToken resp
           in if \<not> truthy token' then Some (Inr acc', s1)
              else list_aliases_loop E agent_id max_results acc' token' s1))"

definition list_aliases ::
  "'s env \<Rightarrow> string \<Rightarrow> int \<Rightarrow> 's \<Rightarrow> ((py_exn + pydict list) \<times> 's) option" where
  "list_aliases E agent_id max_results s = list_aliases_loop E agent_id max_results [] None s"

section \<open>Runtime (agent\_manager.py)\<close>

text \<open>
  \<open>str.strip()\<close> removes the characters for which \<open>str.isspace\<close> holds from both ends;
  among the characters below 256 these are 9 to 13, 28 to 32, 133 and 160.
\<close>

definition py_isspace :: "char \<Rightarrow> bool" where
  "py_isspace c =
     (let n = (of_char c :: nat)
      in (9 \<le> n \<and> n \<le> 13) \<or> (28 \<le> n \<and> n \<le> 32) \<or> n = 133 \<or> n = 160)"

definition py_strip :: "string \<Rightarrow> string" where
  "py_strip s = rev (dropWhile py_isspace (rev (dropWhile py_isspace s)))"

text \<open>
  The body of the \<open>for event in ...\<close> loop: what one event appends to \<open>chunks\<close>. A chunk
  always appends, the decoded bytes or, should decoding raise, \<open>str(data)\<close>; a final
  response appends its text when that is truthy; any other event appends nothing.
\<close>

definition event_chunks :: "'s env \<Rightarrow> event \<Rightarrow> string list" where
  "event_chunks E ev =
     (case chunk ev of
        Some c \<Rightarrow>
          (let data = or_list c [] in
           (case bytes_decode E data of Inr decoded \<Rightarrow> [decoded]
            | Inl e \<Rightarrow> [bytes_str E data]))
      | None \<Rightarrow>
          (case finalResponse ev of
             Some f \<Rightarrow>
               (case f of Some t \<Rightarrow> if t \<noteq> [] then [t] else [] | None \<Rightarrow> [])
           | None \<Rightarrow> []))"

fun collect_chunks :: "'s env \<Rightarrow> string list \<Rightarrow> event list \<Rightarrow> string list" where
  "collect_chunks E chunks [] = chunks"
| "collect_chunks E chunks (ev # evs) = collect_chunks E (chunks @ event_chunks E ev) evs"

definition access_denied_invoking :: string where
  "access_denied_invoking =
     ''Access denied invoking agent. Ensure your caller has bedrock:InvokeAgent and (for streaming) bedrock:InvokeModelWithResponseStream permissions.''"

definition access_denied_streaming :: string where
  "access_denied_streaming =
     ''Access denied during agent streaming. Grant bedrock:InvokeAgent and bedrock:InvokeModelWithResponseStream to the invoking identity and retry.''"

text \<open>
  The two handlers of \<open>invoke\<close>, tried in the order of the source: \<open>except ClientError\<close>,
  then \<open>except EventStreamError\<close>. The code read by the first one defaults to the empty
  string.
\<close>

definition invoke_except :: "py_exn \<Rightarrow> py_exn" where
  "invoke_except e =
     (if isinstance_ClientError e then
        (let code = or_list (error_code e) [] in
         if code = ''AccessDeniedException'' \<or> code = ''accessDeniedException''
         then RuntimeError access_denied_invoking else e)
      else if isinstance_EventStreamError e then
        (let msg = exn_str e in
         if contains msg ''accessDeniedException'' \<or> contains msg ''Access denied''
         then RuntimeError access_denied_streaming else e)
      else e)"

text \<open>\<open>resp.get("completion", [])\<close>: no stream is an empty one.\<close>

definition or_stream :: "event_stream option \<Rightarrow> event_stream" where
  "or_stream c = (case c of None \<Rightarrow> EventStream [] None | Some st \<Rightarrow> st)"

text \<open>\<open>if not session_id: session_id = str(uuid.uuid4())\<close>.\<close>

definition session_or_new :: "'s env \<Rightarrow> string option \<Rightarrow> 's \<Rightarrow> string \<times> 's" where
  "session_or_new E session_id s =
     (case session_id of
        Some sid \<Rightarrow> if sid \<noteq> [] then (sid, s) else uuid4 E s
      | None \<Rightarrow> uuid4 E s)"

definition invoke ::
  "'s env \<Rightarrow> string \<Rightarrow> string \<Rightarrow> string \<Rightarrow> string option \<Rightarrow> bool \<Rightarrow> 's
    \<Rightarrow> (py_exn + string) \<times> 's"
where
  "invoke E agent_id alias_id txt session_id enable_trace s =
     (case session_or_new E session_id s of
        (sid, s0) \<Rightarrow>
          (case api_invoke_agent E
                  \<lparr>agentId = agent_id, agentAliasId = alias_id, inputText = txt,
                   sessionId = sid, enableTrace = enable_trace\<rparr> s0 of
             (Inl e, s1) \<Rightarrow> (Inl (invoke_except e), s1)
           | (Inr resp, s1) \<Rightarrow>
               (case or_stream (completion resp) of
                  EventStream evs raised \<Rightarrow>
                    (let chunks = collect_chunks E [] evs in
                     (case raised of
                        Some e \<Rightarrow> (Inl (invoke_except e), s1)
                      | None \<Rightarrow> (Inr (py_strip (concat chunks)), s1))))))"


section \<open>Pages served by a list call\<close>

text \<open>
  \<open>pages call token s rs s'\<close>: asked from \<open>token\<close> on in state \<open>s\<close>, the list call answers
  with the responses \<open>rs\<close>, each request carrying the token of the response before it;
  every response but the last has a truthy token, the last has none (or an empty one),
  and \<open>s'\<close> is the state after the last response.
\<close>

inductive pages ::
  "(string option \<Rightarrow> 's \<Rightarrow> (py_exn + response) \<times> 's) \<Rightarrow> string option \<Rightarrow> 's
    \<Rightarrow> response list \<Rightarrow> 's \<Rightarrow> bool"
  for call :: "string option \<Rightarrow> 's \<Rightarrow> (py_exn + response) \<times> 's"
where
  last_page: "call token s = (Inr r, s') \<Longrightarrow> \<not> truthy (nextToken r) \<Longrightarrow>
     pages call token s [r] s'"
| next_page: "call token s = (Inr r, s1) \<Longrightarrow> truthy (nextToken r) \<Longrightarrow>
     pages call (nextToken r) s1 rs s' \<Longrightarrow> pages call token s (r # rs) s'"

text \<open>
  The reading of the specification, for comparison: of the two keys, take the first one
  that is present; with neither, the empty list.
\<close>

definition first_present :: "'a list option \<Rightarrow> 'a list option \<Rightarrow> 'a list" where
  "first_present a b =
     (case a of Some xs \<Rightarrow> xs | None \<Rightarrow> (case b of Some ys \<Rightarrow> ys | None \<Rightarrow> []))"

section \<open>Rounds of the waiting loop\<close>

text \<open>
  \<open>poll_round E agent_id timeout_s start r s'\<close>: in some round the clock, read at the head
  of the loop, was still inside the bound, and the call of \<open>get_agent\<close> that followed
  answered \<open>r\<close> and left the state \<open>s'\<close>.
\<close>

definition poll_round ::
  "'s env \<Rightarrow> string \<Rightarrow> int \<Rightarrow> real \<Rightarrow> (py_exn + response) \<Rightarrow> 's \<Rightarrow> bool" where
  "poll_round E agent_id timeout_s start r s' =
     (\<exists>sr now sp. time_time E sr = (now, sp) \<and> now - start < of_int timeout_s
                  \<and> api_get_agent E agent_id sp = (r, s'))"

text \<open>
  The ways in which the loop ends with the result \<open>res\<close> in the state \<open>s'\<close>: the desired
  status was polled; a terminal status other than the desired one was polled; the clock
  was read at or beyond the bound; or the poll itself raised, its response had no
  \<open>agent\<close>, or the sleep was refused for a negative length.
\<close>

definition wait_exit ::
  "'s env \<Rightarrow> string \<Rightarrow> string \<Rightarrow> int \<Rightarrow> int \<Rightarrow> real \<Rightarrow> (py_exn + string) \<Rightarrow> 's \<Rightarrow> bool"
where
  "wait_exit E agent_id desired timeout_s poll_s start res s' =
     ((\<exists>resp a. poll_round E agent_id timeout_s start (Inr resp) s' \<and> agent resp = Some a
          \<and> dict_get a ''agentStatus'' = Some desired \<and> res = Inr desired)
      \<or> (\<exists>resp a st. poll_round E agent_id timeout_s start (Inr resp) s' \<and> agent resp = Some a
          \<and> dict_get a ''agentStatus'' = Some st \<and> (st = ''FAILED'' \<or> st = ''DELETING'')
          \<and> st \<noteq> desired
          \<and> res = Inl (RuntimeError (''Agent moved to terminal state: '' @ st)))
      \<or> (\<exists>sr now. time_time E sr = (now, s') \<and> of_int timeout_s \<le> now - start
          \<and> res = Inl (TimeoutError (''Timed out waiting for agent '' @ agent_id
                                      @ '' to reach '' @ desired)))
      \<or> (\<exists>e. poll_round E agent_id timeout_s start (Inl e) s' \<and> res = Inl e)
      \<or> (\<exists>resp. poll_round E agent_id timeout_s start (Inr resp) s' \<and> agent resp = None
          \<and> res = Inl (KeyError ''agent''))
      \<or> (\<exists>resp. poll_round E agent_id timeout_s start (Inr resp) s' \<and> poll_s < 0
          \<and> res = Inl (ValueError ''sleep length must be non-negative'')))"

section \<open>Services used as examples\<close>

text \<open>A service on which every call fails, to be overridden call by call.\<close>

definition unavailable :: py_exn where
  "unavailable =
     ClientError \<lparr>Error = Some \<lparr>Code = Some ''ServiceUnavailableException'',
                                 Message = Some ''unavailable''\<rparr>\<rparr> ''unavailable''"

definition stub_env :: "'s env" where
  "stub_env =
     \<lparr>api_list_agents = (\<lambda>mr tok s. (Inl unavailable, s)),
      api_get_agent = (\<lambda>i s. (Inl unavailable, s)),
      api_create_agent = (\<lambda>kw s. (Inl unavailable, s)),
      api_prepare_agent = (\<lambda>i s. (Inl unavailable, s)),
      api_list_agent_aliases = (\<lambda>i mr tok s. (Inl unavailable, s)),
      api_invoke_agent = (\<lambda>kw s. (Inl unavailable, s)),
      uuid4 = (\<lambda>s. (''00000000-0000-4000-8000-000000000000'', s)),
      time_time = (\<lambda>s. (0, s)),
      time_sleep = (\<lambda>n s. s),
      bytes_decode = (\<lambda>b. Inr b),
      bytes_str = (\<lambda>b. b)\<rparr>"

definition no_response :: response where
  "no_response =
     \<lparr>agent = None, agents = None, agentSummaries = None, agentAliasSummaries = None,
      agentAliases = None, nextToken = None\<rparr>"

text \<open>
  Three pages of two items each, the second under the other key; the state counts the
  calls.
\<close>

definition item :: "string \<Rightarrow> pydict" where
  "item i = [(''agentId'', i), (''agentName'', ''name-'' @ i)]"

definition agent_page :: "string option \<Rightarrow> py_exn + response" where
  "agent_page tok =
     (if tok = None then
        Inr (no_response\<lparr>agents := Some [item ''1'', item ''2''], nextToken := Some ''t1''\<rparr>)
      else if tok = Some ''t1'' then
        Inr (no_response\<lparr>agentSummaries := Some [item ''3'', item ''4''],
                          nextToken := Some ''t2''\<rparr>)
      else if tok = Some ''t2'' then
        Inr (no_response\<lparr>agents := Some [item ''5'', item ''6'']\<rparr>)
      else Inl unavailable)"

definition alias_page :: "string option \<Rightarrow> py_exn + response" where
  "alias_page tok =
     (if tok = None then
        Inr (no_response\<lparr>agentAliasSummaries := Some [item ''1'', item ''2''],
                          nextToken := Some ''t1''\<rparr>)
      else if tok = Some ''t1'' then
        Inr (no_response\<lparr>agentAliases := Some [item ''3'', item ''4''],
                          nextToken := Some ''t2''\<rparr>)
      else if tok = Some ''t2'' then
        Inr (no_response\<lparr>agentAliasSummaries := Some [item ''5'', item ''6'']\<rparr>)
      else Inl unavailable)"

definition paged_env :: "nat env" where
  "paged_env =
     stub_env\<lparr>api_list_agents := (\<lambda>mr tok n. (agent_page tok, Suc n)),
              api_list_agent_aliases := (\<lambda>i mr tok n. (alias_page tok, Suc n))\<rparr>"

text \<open>One page that has both keys, the first of them with an empty list.\<close>

definition both_keys_page :: response where
  "both_keys_page = no_response\<lparr>agents := Some [], agentSummaries := Some [item ''1'']\<rparr>"

definition both_keys_env :: "nat env" where
  "both_keys_env = stub_env\<lparr>api_list_agents := (\<lambda>mr tok n. (Inr both_keys_page, Suc n))\<rparr>"

text \<open>
  A runtime that answers every call with the stream of the specification's example:
  two data chunks and a final response.
\<close>

definition hello_stream :: event_stream where
  "hello_stream =
     EventStream
       [\<lparr>chunk = Some (Some ''Hel''), finalResponse = None\<rparr>,
        \<lparr>chunk = Some (Some ''lo''), finalResponse = None\<rparr>,
        \<lparr>chunk = None, finalResponse = Some (Some '' world'')\<rparr>] None"

definition hello_env :: "unit env" where
  "hello_env =
     stub_env\<lparr>api_invoke_agent := (\<lambda>kw s. (Inr \<lparr>completion = Some hello_stream\<rparr>, s))\<rparr>"

text \<open>
  A runtime that refuses the call, and one that accepts it and whose stream then fails
  after one chunk, both with an access-denied code.
\<close>

definition denied_call :: py_exn where
  "denied_call =
     ClientError \<lparr>Error = Some \<lparr>Code = Some ''AccessDeniedException'',
                                 Message = Some ''not authorized''\<rparr>\<rparr>
       ''An error occurred (AccessDeniedException) when calling the InvokeAgent operation: not authorized''"

definition denied_stream :: py_exn where
  "denied_stream =
     EventStreamError \<lparr>Error = Some \<lparr>Code = Some ''accessDeniedException'',
                                      Message = Some ''not authorized''\<rparr>\<rparr>
       ''An error occurred (accessDeniedException) when calling the InvokeAgent operation: not authorized''"

definition denied_call_env :: "unit env" where
  "denied_call_env = stub_env\<lparr>api_invoke_agent := (\<lambda>kw s. (Inl denied_call, s))\<rparr>"

definition denied_stream_env :: "unit env" where
  "denied_stream_env =
     stub_env\<lparr>api_invoke_agent := (\<lambda>kw s.
       (Inr \<lparr>completion = Some (EventStream
               [\<lparr>chunk = Some (Some ''Hel''), finalResponse = None\<rparr>]
               (Some denied_stream))\<rparr>, s))\<rparr>"

text \<open>
  A runtime whose stream pads its text with white space and carries a trace event, a
  chunk without bytes and a final response without text.
\<close>

definition padded_stream :: event_stream where
  "padded_stream =
     EventStream
       [\<lparr>chunk = Some (Some ''  Hi''), finalResponse = None\<rparr>,
        \<lparr>chunk = None, finalResponse = None\<rparr>,
        \<lparr>chunk = Some None, finalResponse = None\<rparr>,
        \<lparr>chunk = None, finalResponse = Some None\<rparr>,
        \<lparr>chunk = None, finalResponse = Some (Some '' there  '')\<rparr>] None"

definition padded_env :: "unit env" where
  "padded_env =
     stub_env\<lparr>api_invoke_agent := (\<lambda>kw s. (Inr \<lparr>completion = Some padded_stream\<rparr>, s))\<rparr>"

text \<open>
  A control plane that keeps the agents it has created: a second creation under a name in
  use is refused with \<open>ConflictException\<close>, the listing is one page of all agents, and an
  agent is fetched by its id. And one that refuses every creation with
  \<open>ConflictException\<close> while its listing is empty.
\<close>

definition conflict :: py_exn where
  "conflict =
     ClientError \<lparr>Error = Some \<lparr>Code = Some ''ConflictException'',
                                 Message = Some ''agent name already in use''\<rparr>\<rparr>
       ''An error occurred (ConflictException) when calling the CreateAgent operation: agent name already in use''"

definition new_record :: "create_agent_kwargs \<Rightarrow> pydict" where
  "new_record kw =
     [(''agentId'', ''ID-'' @ agentName kw), (''agentName'', agentName kw),
      (''agentStatus'', ''CREATING'')]"

definition registry_env :: "pydict list env" where
  "registry_env =
     stub_env\<lparr>
       api_create_agent := (\<lambda>kw reg.
          if find (\<lambda>a. dict_get a ''agentName'' = Some (agentName kw)) reg \<noteq> None
          then (Inl conflict, reg)
          else (Inr (no_response\<lparr>agent := Some (new_record kw)\<rparr>), reg @ [new_record kw])),
       api_list_agents := (\<lambda>mr tok reg. (Inr (no_response\<lparr>agentSummaries := Some reg\<rparr>), reg)),
       api_get_agent := (\<lambda>i reg.
          case find (\<lambda>a. dict_get a ''agentId'' = Some i) reg of
            None \<Rightarrow> (Inl unavailable, reg)
          | Some a \<Rightarrow> (Inr (no_response\<lparr>agent := Some a\<rparr>), reg))\<rparr>"

definition conflict_env :: "unit env" where
  "conflict_env =
     stub_env\<lparr>api_create_agent := (\<lambda>kw s. (Inl conflict, s)),
              api_list_agents := (\<lambda>mr tok s. (Inr (no_response\<lparr>agentSummaries := Some []\<rparr>), s))\<rparr>"

definition demo_cfg :: AgentConfig where
  "demo_cfg =
     \<lparr>region = ''us-east-1'', agent_name = ''strand-demo-agent'',
      foundation_model = ''anthropic.claude-3-haiku-20240307-v1:0'',
      instruction = ''You are a helpful assistant.'', role_arn = ''arn:aws:iam::1:role/r'',
      description = ''Sample agent created by aws_strand_sdk'', idle_ttl_seconds = 600\<rparr>"

text \<open>
  Services for the waiting loop. The state is the clock in seconds: reading it and
  polling take no time, a sleep takes its length. One service reports \<open>PREPARING\<close>
  at every poll, one reports \<open>FAILED\<close>, and one throttles every poll.
\<close>

definition status_record :: "string \<Rightarrow> string \<Rightarrow> pydict" where
  "status_record i st = [(''agentId'', i), (''agentStatus'', st)]"

definition clock_env :: "nat env" where
  "clock_env =
     stub_env\<lparr>time_time := (\<lambda>n. (real n, n)),
              time_sleep := (\<lambda>p n. n + nat p),
              api_prepare_agent := (\<lambda>i n. (Inr no_response, n))\<rparr>"

definition preparing_env :: "nat env" where
  "preparing_env =
     clock_env\<lparr>api_get_agent := (\<lambda>i n.
       (Inr (no_response\<lparr>agent := Some (status_record i ''PREPARING'')\<rparr>), n))\<rparr>"

definition failed_env :: "nat env" where
  "failed_env =
     clock_env\<lparr>api_get_agent := (\<lambda>i n.
       (Inr (no_response\<lparr>agent := Some (status_record i ''FAILED'')\<rparr>), n))\<rparr>"

definition throttled :: py_exn where
  "throttled =
     ClientError \<lparr>Error = Some \<lparr>Code = Some ''ThrottlingException'',
                                 Message = Some ''rate exceeded''\<rparr>\<rparr>
       ''An error occurred (ThrottlingException) when calling the GetAgent operation: rate exceeded''"

definition throttled_env :: "nat env" where
  "throttled_env = clock_env\<lparr>api_get_agent := (\<lambda>i n. (Inl throttled, n))\<rparr>"

section \<open>Properties of the separator scan\<close>

lemma split_scan_nonempty: "split_scan sep s \<noteq> []"
  by (induction sep s rule: split_scan.induct) (auto split: list.splits)

lemma split_scan_no_sep: "\<not> sublist sep s \<Longrightarrow> split_scan sep s = [s]"
  by (induction s) (auto simp: sublist_Cons_right)

lemma split_scan_single:
  "sep \<noteq> [] \<Longrightarrow> split_scan sep s = [p] \<Longrightarrow> p = s \<and> \<not> sublist sep s"
  by (induction s arbitrary: p)
    (auto simp: sublist_Cons_right split_scan_nonempty split: if_splits list.splits)

lemma hd_split_scan_prefix: "prefix (hd (split_scan sep s)) s"
  by (induction sep s rule: split_scan.induct)
    (auto simp: split_scan_nonempty split: list.splits)

text \<open>The piece behind the last cut holds no further separator.\<close>

lemma last_split_scan_no_sep:
  "sep \<noteq> [] \<Longrightarrow> \<not> sublist sep (last (split_scan sep s))"
proof (induction sep s rule: split_scan.induct)
  case (1 sep)
  then show ?case by simp
next
  case (2 sep c cs)
  show ?case
  proof (cases "prefix sep (c # cs)")
    case True
    with 2 show ?thesis by (simp add: split_scan_nonempty)
  next
    case False
    obtain p ps where ps: "split_scan sep cs = p # ps"
      using split_scan_nonempty [of sep cs] by (cases "split_scan sep cs") auto
    show ?thesis
    proof (cases ps)
      case Nil
      with ps 2(3) have "p = cs \<and> \<not> sublist sep cs"
        using split_scan_single by blast
      with False ps Nil show ?thesis by (simp add: sublist_Cons_right)
    next
      case (Cons q qs)
      with False ps 2 show ?thesis by simp
    qed
  qed
qed

text \<open>Neither does the piece before the first cut.\<close>

lemma hd_split_scan_no_sep:
  "sep \<noteq> [] \<Longrightarrow> \<not> sublist sep (hd (split_scan sep s))"
proof (induction sep s rule: split_scan.induct)
  case (1 sep)
  then show ?case by simp
next
  case (2 sep c cs)
  show ?case
  proof (cases "prefix sep (c # cs)")
    case True
    with 2 show ?thesis by simp
  next
    case False
    obtain p ps where ps: "split_scan sep cs = p # ps"
      using split_scan_nonempty [of sep cs] by (cases "split_scan sep cs") auto
    have np: "\<not> sublist sep p" using 2(2) [OF False] 2(3) ps by simp
    have "prefix p cs" using hd_split_scan_prefix [of sep cs] ps by simp
    then have "prefix (c # p) (c # cs)" by simp
    with False have "\<not> prefix sep (c # p)" using prefix_order.trans by blast
    with False ps np show ?thesis by (simp add: sublist_Cons_right)
  qed
qed

lemma last_split_scan_skip:
  assumes "sep \<noteq> []" "\<not> prefix sep (c # cs)" "sublist sep cs"
  shows "last (split_scan sep (c # cs)) = last (split_scan sep cs)"
proof -
  obtain p ps where ps: "split_scan sep cs = p # ps"
    using split_scan_nonempty [of sep cs] by (cases "split_scan sep cs") auto
  have "ps \<noteq> []" using split_scan_single [OF assms(1), of cs p] ps assms(3) by auto
  with ps assms(2) show ?thesis by simp
qed

text \<open>
  The scan cuts at an occurrence of the separator unless an earlier cut has swallowed its
  first characters: when no occurrence that starts in the last \<open>length sep - 1\<close>
  characters of \<open>pre\<close> overlaps the separator behind \<open>pre\<close>, and \<open>suf\<close> holds no
  separator, the last piece is \<open>suf\<close>.
\<close>

lemma last_split_scan_at:
  assumes "sep \<noteq> []" and "\<not> sublist sep suf"
    and "\<And>q. q \<noteq> [] \<Longrightarrow> length q < length sep \<Longrightarrow> suffix q pre \<Longrightarrow>
           \<not> prefix sep (q @ sep @ suf)"
  shows "last (split_scan sep (pre @ sep @ suf)) = suf"
  using assms(3)
proof (induction "length pre" arbitrary: pre rule: less_induct)
  case less
  obtain d ds where sep: "sep = d # ds" using assms(1) by (cases sep) auto
  show ?case
  proof (cases pre)
    case Nil
    have "split_scan sep (sep @ suf) = [] # split_scan sep suf"
      unfolding sep by simp
    with Nil assms(2) show ?thesis by (simp add: split_scan_no_sep)
  next
    case (Cons c pre')
    show ?thesis
    proof (cases "prefix sep (pre @ sep @ suf)")
      case True
      have "\<not> length pre < length sep"
        using less.prems [of pre] True Cons by auto
      then have len: "length sep \<le> length pre" by simp
      have "prefix sep pre"
      proof (rule prefix_length_prefix)
        show "prefix sep (pre @ sep @ suf)" by (rule True)
        show "prefix pre (pre @ sep @ suf)" by (rule prefixI) (rule refl)
        show "length sep \<le> length pre" by (rule len)
      qed
      then obtain rest where rest: "pre = sep @ rest" by (auto simp: prefix_def)
      have step: "split_scan sep (sep @ rest @ sep @ suf)
                  = [] # split_scan sep (rest @ sep @ suf)"
        unfolding sep by simp
      have "length rest < length pre" using rest assms(1) by simp
      moreover have "\<And>q. q \<noteq> [] \<Longrightarrow> length q < length sep \<Longrightarrow> suffix q rest \<Longrightarrow>
           \<not> prefix sep (q @ sep @ suf)"
        using less.prems rest by (meson suffix_appendI)
      ultimately have "last (split_scan sep (rest @ sep @ suf)) = suf"
        using less.hyps by blast
      with step show ?thesis unfolding rest by (simp add: split_scan_nonempty)
    next
      case False
      have sub: "sublist sep (pre' @ sep @ suf)" by (rule sublist_appendI)
      have np: "\<not> prefix sep (c # (pre' @ sep @ suf))" using False Cons by simp
      have "last (split_scan sep (c # (pre' @ sep @ suf)))
            = last (split_scan sep (pre' @ sep @ suf))"
        using assms(1) np sub by (rule last_split_scan_skip)
      also have "\<dots> = suf"
      proof (rule less.hyps)
        show "length pre' < length pre" using Cons by simp
        show "\<And>q. q \<noteq> [] \<Longrightarrow> length q < length sep \<Longrightarrow> suffix q pre' \<Longrightarrow>
           \<not> prefix sep (q @ sep @ suf)"
          using less.prems Cons by (meson suffix_ConsI)
      qed
      finally show ?thesis using Cons by simp
    qed
  qed
qed

text \<open>
  The marker \<open>/alias/\<close> overlaps itself in one way only: its last character is its first,
  so an occurrence that overlaps the marker behind \<open>pre\<close> starts six characters before it.
\<close>

lemma overlap_alias:
  assumes "pre \<noteq> []" "length pre < 7" "prefix ''/alias/'' (pre @ ''/alias/'' @ suf)"
  shows "pre = ''/alias''"
  using assms by (auto simp: less_Suc_eq numeral_eq_Suc length_Suc_conv)

lemma last_split_alias:
  assumes "\<not> sublist ''/alias/'' suf" "\<not> suffix ''/alias'' pre"
  shows "last (split_scan ''/alias/'' (pre @ ''/alias/'' @ suf)) = suf"
proof (rule last_split_scan_at)
  show "''/alias/'' \<noteq> []" by simp
  show "\<not> sublist ''/alias/'' suf" by (rule assms(1))
  fix q :: string
  assume q: "q \<noteq> []" "length q < length ''/alias/''" "suffix q pre"
  show "\<not> prefix ''/alias/'' (q @ ''/alias/'' @ suf)"
  proof
    assume "prefix ''/alias/'' (q @ ''/alias/'' @ suf)"
    with q(1,2) have "q = ''/alias''" by (intro overlap_alias [of q suf]) auto
    with q(3) assms(2) show False by simp
  qed
qed

section \<open>Identifier normalisation: results\<close>

lemma extract_alias_id_try_eq:
  "extract_alias_id_try v = Inr (last (split_scan ''/alias/'' v))"
  by (simp add: extract_alias_id_try_def py_split_def index_last_def split_scan_nonempty)

lemma extract_agent_id_try_eq:
  "extract_agent_id_try v =
     Inr (hd (split_scan ''/'' (last (split_scan ''/agent/'' v))))"
  by (simp add: extract_agent_id_try_def py_split_def index_last_def index_first_def
      split_scan_nonempty hd_def split: list.splits)

lemma extract_alias_id_last:
  assumes "startswith v ''arn:aws:bedrock:''" and "contains v ''/alias/''"
  shows "extract_alias_id v = last (split_scan ''/alias/'' v)"
proof -
  have "v \<noteq> []" using assms(2) by (auto simp: contains_def)
  with assms show ?thesis
    by (simp add: extract_alias_id_def extract_alias_id_try_eq)
qed

lemma extract_alias_id_idem: "extract_alias_id (extract_alias_id v) = extract_alias_id v"
proof (cases "v \<noteq> [] \<and> startswith v ''arn:aws:bedrock:'' \<and> contains v ''/alias/''")
  case True
  then have r: "extract_alias_id v = last (split_scan ''/alias/'' v)"
    by (simp add: extract_alias_id_last)
  have "\<not> contains (last (split_scan ''/alias/'' v)) ''/alias/''"
    unfolding contains_def by (rule last_split_scan_no_sep) simp
  then show ?thesis unfolding r by (simp add: extract_alias_id_def)
next
  case False
  then have "extract_alias_id v = v" by (auto simp add: extract_alias_id_def)
  then show ?thesis by simp
qed

lemma extract_agent_id_idem: "extract_agent_id (extract_agent_id v) = extract_agent_id v"
proof (cases "v \<noteq> [] \<and> startswith v ''arn:aws:bedrock:'' \<and> contains v ''/agent/''")
  case True
  define after where "after = last (split_scan ''/agent/'' v)"
  from True have r: "extract_agent_id v = hd (split_scan ''/'' after)"
    by (simp add: extract_agent_id_def extract_agent_id_try_eq after_def)
  have "\<not> sublist ''/'' (hd (split_scan ''/'' after))"
    by (rule hd_split_scan_no_sep) simp
  moreover have "sublist ''/'' ''/agent/''" by (simp add: sublist_Cons_right)
  ultimately have "\<not> contains (hd (split_scan ''/'' after)) ''/agent/''"
    unfolding contains_def using sublist_order.order.trans by blast
  then show ?thesis unfolding r by (simp add: extract_agent_id_def)
next
  case False
  then have "extract_agent_id v = v" by (auto simp add: extract_agent_id_def)
  then show ?thesis by simp
qed

text \<open>
  Claim C4. Both normalisers are total and idempotent on every string: the body of the
  \<open>try\<close> never raises, applying a normaliser to its own result changes nothing, and a
  string that fails the guard (it does not start with \<open>arn:aws:bedrock:\<close>, or it lacks
  the marker) is returned as it is.
\<close>

theorem normalize_total_idempotent:
  "extract_alias_id (extract_alias_id v) = extract_alias_id v
   \<and> extract_agent_id (extract_agent_id v) = extract_agent_id v
   \<and> (\<exists>r. extract_alias_id_try v = Inr r)
   \<and> (\<exists>r. extract_agent_id_try v = Inr r)
   \<and> (\<not> (startswith v ''arn:aws:bedrock:'' \<and> contains v ''/alias/'') \<longrightarrow>
        extract_alias_id v = v)
   \<and> (\<not> (startswith v ''arn:aws:bedrock:'' \<and> contains v ''/agent/'') \<longrightarrow>
        extract_agent_id v = v)"
  by (simp add: extract_alias_id_idem extract_agent_id_idem extract_alias_id_try_eq
      extract_agent_id_try_eq)
    (auto simp: extract_alias_id_def extract_agent_id_def)

theorem normalize_total_idempotent_witness:
  "\<not> (startswith ''x/agent/A1/alias/B2'' ''arn:aws:bedrock:''
        \<and> contains ''x/agent/A1/alias/B2'' ''/alias/'')
   \<and> extract_alias_id ''x/agent/A1/alias/B2'' = ''x/agent/A1/alias/B2''
   \<and> \<not> (startswith ''x/agent/A1/alias/B2'' ''arn:aws:bedrock:''
        \<and> contains ''x/agent/A1/alias/B2'' ''/agent/'')
   \<and> extract_agent_id ''x/agent/A1/alias/B2'' = ''x/agent/A1/alias/B2''"
proof -
  have g: "\<not> startswith ''x/agent/A1/alias/B2'' ''arn:aws:bedrock:''"
    by (simp add: startswith_def)
  show ?thesis
    using g normalize_total_idempotent [of "''x/agent/A1/alias/B2''"] by simp
qed

text \<open>
  Claim C5. On the locator of the specification the alias normaliser gives \<open>B2\<close> and a
  bare identifier passes through, but the agent normaliser does not give \<open>A1\<close>: its
  guard looks for \<open>/agent/\<close>, while in a locator the agent segment follows a colon
  (\<open>:agent/\<close>), so the guard fails and the whole locator comes back.
\<close>

theorem extract_agent_id_locator_unchanged:
  "extract_alias_id ''arn:aws:bedrock:us-east-1:111111111111:agent/A1/alias/B2'' = ''B2''
   \<and> extract_alias_id ''B2'' = ''B2''
   \<and> extract_agent_id ''arn:aws:bedrock:us-east-1:111111111111:agent/A1/alias/B2''
       = ''arn:aws:bedrock:us-east-1:111111111111:agent/A1/alias/B2''
   \<and> extract_agent_id ''arn:aws:bedrock:us-east-1:111111111111:agent/A1/alias/B2''
       \<noteq> ''A1''"
  by code_simp

text \<open>
  Claim C6, as stated, fails for a prefix outside \<open>arn:aws:bedrock:\<close>: the guard of the
  alias normaliser rejects the locator and returns it whole.
\<close>

theorem extract_alias_id_other_prefix:
  "extract_alias_id (''loc'' @ '':agent/'' @ ''A1'' @ ''/alias/'' @ ''B2'') \<noteq> ''B2''"
  by code_simp

text \<open>
  Claim C6, amended. For a locator \<open><prefix>:agent/<AGENT_ID>/alias/<ALIAS_ID>\<close> that
  starts with \<open>arn:aws:bedrock:\<close>, whose alias identifier holds no alias marker and
  whose part before the marker does not end in \<open>/alias\<close>, the alias normaliser returns
  the alias identifier.
\<close>

theorem extract_alias_id_locator:
  assumes "startswith (p @ '':agent/'' @ aid @ ''/alias/'' @ alid) ''arn:aws:bedrock:''"
    and "\<not> suffix ''/alias'' (p @ '':agent/'' @ aid)"
    and "\<not> sublist ''/alias/'' alid"
  shows "extract_alias_id (p @ '':agent/'' @ aid @ ''/alias/'' @ alid) = alid"
proof -
  define v where "v = (p @ '':agent/'' @ aid) @ ''/alias/'' @ alid"
  have c: "contains v ''/alias/''" unfolding contains_def v_def by (rule sublist_appendI)
  have l: "last (split_scan ''/alias/'' v) = alid"
    unfolding v_def using assms(2,3) by (rule last_split_alias [rotated])
  have s: "startswith v ''arn:aws:bedrock:''" using assms(1) unfolding v_def by simp
  have "extract_alias_id v = alid"
    using extract_alias_id_last [OF s c] l by simp
  then show ?thesis unfolding v_def by simp
qed

theorem extract_alias_id_locator_witness:
  "startswith (''arn:aws:bedrock:us-east-1:111111111111'' @ '':agent/'' @ ''A1''
               @ ''/alias/'' @ ''B2'') ''arn:aws:bedrock:''
   \<and> \<not> suffix ''/alias'' (''arn:aws:bedrock:us-east-1:111111111111'' @ '':agent/'' @ ''A1'')
   \<and> \<not> sublist ''/alias/'' ''B2''
   \<and> extract_alias_id (''arn:aws:bedrock:us-east-1:111111111111'' @ '':agent/'' @ ''A1''
                        @ ''/alias/'' @ ''B2'') = ''B2''"
proof -
  have h1: "startswith (''arn:aws:bedrock:us-east-1:111111111111'' @ '':agent/'' @ ''A1''
               @ ''/alias/'' @ ''B2'') ''arn:aws:bedrock:''"
    by code_simp
  have h2: "\<not> suffix ''/alias''
              (''arn:aws:bedrock:us-east-1:111111111111'' @ '':agent/'' @ ''A1'')"
    by code_simp
  have h3: "\<not> sublist ''/alias/'' ''B2''" by code_simp
  from h1 h2 h3 extract_alias_id_locator [OF h1 h2 h3] show ?thesis by blast
qed

section \<open>Pagination: the loops against the pages served\<close>

lemma list_agents_loop_pages:
  assumes "pages (api_list_agents E mr) tok s rs s'" and "tok = None \<or> truthy tok"
  shows "list_agents_loop E mr acc tok s = Some (Inr (acc @ concat (map agent_items rs)), s')"
  using assms
proof (induction arbitrary: acc rule: pages.induct)
  case (last_page token s r s')
  have req: "(if truthy token then token else None) = token"
    using last_page.prems by (auto simp: truthy_def)
  show ?case
    using last_page.hyps
    by (subst list_agents_loop.simps) (simp add: req)
next
  case (next_page token s r s1 rs s')
  have req: "(if truthy token then token else None) = token"
    using next_page.prems by (auto simp: truthy_def)
  have ih: "list_agents_loop E mr (acc @ agent_items r) (nextToken r) s1 =
            Some (Inr ((acc @ agent_items r) @ concat (map agent_items rs)), s')"
    using next_page.IH next_page.hyps(2) by blast
  show ?case
    using next_page.hyps(1,2) ih
    by (subst list_agents_loop.simps) (simp add: req)
qed

lemma list_agents_loop_returns:
  assumes "list_agents_loop E mr acc tok s = Some y"
  shows "\<forall>xs s'. y = (Inr xs, s') \<longrightarrow>
          (\<exists>rs. pages (api_list_agents E mr) (if truthy tok then tok else None) s rs s'
              \<and> xs = acc @ concat (map agent_items rs))"
  using assms
proof (induction E mr acc tok s y
       rule: list_agents_loop.raw_induct [rotated 1, consumes 1, case_names step])
  case (step loop E mr acc tok s y)
  let ?req = "if truthy tok then tok else None"
  obtain res s1 where call: "api_list_agents E mr ?req s = (res, s1)"
    by (cases "api_list_agents E mr ?req s")
  show ?case
  proof (intro allI impI)
    fix xs s'
    assume y: "y = (Inr xs, s')"
    show "\<exists>rs. pages (api_list_agents E mr) ?req s rs s'
              \<and> xs = acc @ concat (map agent_items rs)"
    proof (cases res)
      case (Inl e)
      with step(2) call y show ?thesis by simp
    next
      case (Inr r)
      show ?thesis
      proof (cases "truthy (nextToken r)")
        case False
        with step(2) call Inr y have "s' = s1" "xs = acc @ agent_items r"
          by simp_all
        moreover have "pages (api_list_agents E mr) ?req s [r] s1"
          using call Inr False by (intro pages.last_page) simp_all
        ultimately show ?thesis by auto
      next
        case True
        with step(2) call Inr y
        have rec: "loop E mr (acc @ agent_items r) (nextToken r) s1 = Some (Inr xs, s')"
          by simp
        from step(1) [OF rec] True obtain rs where
          rs: "pages (api_list_agents E mr) (nextToken r) s1 rs s'"
              "xs = (acc @ agent_items r) @ concat (map agent_items rs)"
          by auto
        have "pages (api_list_agents E mr) ?req s (r # rs) s'"
          using call Inr True rs(1) by (intro pages.next_page) simp_all
        with rs(2) show ?thesis by auto
      qed
    qed
  qed
qed

lemma list_agents_iff:
  "list_agents E mr s = Some (Inr xs, s') \<longleftrightarrow>
     (\<exists>rs. pages (api_list_agents E mr) None s rs s' \<and> xs = concat (map agent_items rs))"
proof
  assume "list_agents E mr s = Some (Inr xs, s')"
  then show "\<exists>rs. pages (api_list_agents E mr) None s rs s' \<and> xs = concat (map agent_items rs)"
    using list_agents_loop_returns [of E mr "[]" None s "(Inr xs, s')"]
    by (simp add: list_agents_def truthy_def)
next
  assume "\<exists>rs. pages (api_list_agents E mr) None s rs s' \<and> xs = concat (map agent_items rs)"
  then show "list_agents E mr s = Some (Inr xs, s')"
    using list_agents_loop_pages [of E mr None s _ s' "[]"]
    by (auto simp: list_agents_def)
qed

lemma list_aliases_loop_pages:
  assumes "pages (api_list_agent_aliases E i mr) tok s rs s'" and "tok = None \<or> truthy tok"
  shows "list_aliases_loop E i mr acc tok s
         = Some (Inr (acc @ concat (map alias_items rs)), s')"
  using assms
proof (induction arbitrary: acc rule: pages.induct)
  case (last_page token s r s')
  have req: "(if truthy token then token else None) = token"
    using last_page.prems by (auto simp: truthy_def)
  show ?case
    using last_page.hyps
    by (subst list_aliases_loop.simps) (simp add: req)
next
  case (next_page token s r s1 rs s')
  have req: "(if truthy token then token else None) = token"
    using next_page.prems by (auto simp: truthy_def)
  have ih: "list_aliases_loop E i mr (acc @ alias_items r) (nextToken r) s1 =
            Some (Inr ((acc @ alias_items r) @ concat (map alias_items rs)), s')"
    using next_page.IH next_page.hyps(2) by blast
  show ?case
    using next_page.hyps(1,2) ih
    by (subst list_aliases_loop.simps) (simp add: req)
qed

lemma list_aliases_loop_returns:
  assumes "list_aliases_loop E i mr acc tok s = Some y"
  shows "\<forall>xs s'. y = (Inr xs, s') \<longrightarrow>
          (\<exists>rs. pages (api_list_agent_aliases E i mr) (if truthy tok then tok else None) s rs s'
              \<and> xs = acc @ concat (map alias_items rs))"
  using assms
proof (induction E i mr acc tok s y
       rule: list_aliases_loop.raw_induct [rotated 1, consumes 1, case_names step])
  case (step loop E i mr acc tok s y)
  let ?req = "if truthy tok then tok else None"
  obtain res s1 where call: "api_list_agent_aliases E i mr ?req s = (res, s1)"
    by (cases "api_list_agent_aliases E i mr ?req s")
  show ?case
  proof (intro allI impI)
    fix xs s'
    assume y: "y = (Inr xs, s')"
    show "\<exists>rs. pages (api_list_agent_aliases E i mr) ?req s rs s'
              \<and> xs = acc @ concat (map alias_items rs)"
    proof (cases res)
      case (Inl e)
      with step(2) call y show ?thesis by simp
    next
      case (Inr r)
      show ?thesis
      proof (cases "truthy (nextToken r)")
        case False
        with step(2) call Inr y have "s' = s1" "xs = acc @ alias_items r"
          by simp_all
        moreover have "pages (api_list_agent_aliases E i mr) ?req s [r] s1"
          using call Inr False by (intro pages.last_page) simp_all
        ultimately show ?thesis by auto
      next
        case True
        with step(2) call Inr y
        have rec: "loop E i mr (acc @ alias_items r) (nextToken r) s1 = Some (Inr xs, s')"
          by simp
        from step(1) [OF rec] True obtain rs where
          rs: "pages (api_list_agent_aliases E i mr) (nextToken r) s1 rs s'"
              "xs = (acc @ alias_items r) @ concat (map alias_items rs)"
          by auto
        have "pages (api_list_agent_aliases E i mr) ?req s (r # rs) s'"
          using call Inr True rs(1) by (intro pages.next_page) simp_all
        with rs(2) show ?thesis by auto
      qed
    qed
  qed
qed

lemma list_aliases_iff:
  "list_aliases E i mr s = Some (Inr xs, s') \<longleftrightarrow>
     (\<exists>rs. pages (api_list_agent_aliases E i mr) None s rs s'
           \<and> xs = concat (map alias_items rs))"
proof
  assume "list_aliases E i mr s = Some (Inr xs, s')"
  then show "\<exists>rs. pages (api_list_agent_aliases E i mr) None s rs s'
                \<and> xs = concat (map alias_items rs)"
    using list_aliases_loop_returns [of E i mr "[]" None s "(Inr xs, s')"]
    by (simp add: list_aliases_def truthy_def)
next
  assume "\<exists>rs. pages (api_list_agent_aliases E i mr) None s rs s'
            \<and> xs = concat (map alias_items rs)"
  then show "list_aliases E i mr s = Some (Inr xs, s')"
    using list_aliases_loop_pages [of E i mr None s _ s' "[]"]
    by (auto simp: list_aliases_def)
qed

lemma or_items:
  "(truthy a \<longrightarrow> Some (or_list (or_else a b) []) = a)
   \<and> (\<not> truthy a \<and> truthy b \<longrightarrow> Some (or_list (or_else a b) []) = b)
   \<and> (\<not> truthy a \<and> \<not> truthy b \<longrightarrow> or_list (or_else a b) [] = [])"
  by (auto simp: or_list_def or_else_def truthy_def split: option.splits)

lemma paged_env_agent_pages:
  "pages (api_list_agents paged_env 100) None 0
     [no_response\<lparr>agents := Some [item ''1'', item ''2''], nextToken := Some ''t1''\<rparr>,
      no_response\<lparr>agentSummaries := Some [item ''3'', item ''4''], nextToken := Some ''t2''\<rparr>,
      no_response\<lparr>agents := Some [item ''5'', item ''6'']\<rparr>] 3"
  apply (rule pages.next_page [where ?s1.0 = 1])
    apply (simp add: paged_env_def stub_env_def agent_page_def)
   apply (simp add: truthy_def no_response_def)
  apply (simp add: no_response_def)
  apply (rule pages.next_page [where ?s1.0 = 2])
    apply (simp add: paged_env_def stub_env_def agent_page_def no_response_def)
   apply (simp add: truthy_def)
  apply simp
  apply (rule pages.last_page)
   apply (simp add: paged_env_def stub_env_def agent_page_def no_response_def numeral_3_eq_3)
  apply (simp add: truthy_def)
  done

lemma paged_env_alias_pages:
  "pages (api_list_agent_aliases paged_env ''A1'' 100) None 0
     [no_response\<lparr>agentAliasSummaries := Some [item ''1'', item ''2''],
                  nextToken := Some ''t1''\<rparr>,
      no_response\<lparr>agentAliases := Some [item ''3'', item ''4''], nextToken := Some ''t2''\<rparr>,
      no_response\<lparr>agentAliasSummaries := Some [item ''5'', item ''6'']\<rparr>] 3"
  apply (rule pages.next_page [where ?s1.0 = 1])
    apply (simp add: paged_env_def stub_env_def alias_page_def)
   apply (simp add: truthy_def no_response_def)
  apply (simp add: no_response_def)
  apply (rule pages.next_page [where ?s1.0 = 2])
    apply (simp add: paged_env_def stub_env_def alias_page_def no_response_def)
   apply (simp add: truthy_def)
  apply simp
  apply (rule pages.last_page)
   apply (simp add: paged_env_def stub_env_def alias_page_def no_response_def numeral_3_eq_3)
  apply (simp add: truthy_def)
  done

lemma both_keys_env_pages:
  "pages (api_list_agents both_keys_env 100) None 0 [both_keys_page] 1"
  by (rule pages.last_page)
    (simp_all add: both_keys_env_def stub_env_def both_keys_page_def no_response_def
      truthy_def)

text \<open>
  Claim C8, as stated, fails on a page that has both keys with an empty list under the
  first: \<open>or\<close> passes over the empty list and the items under the second key are returned,
  where the first key that is present would give none.
\<close>

theorem list_agents_empty_first_key:
  "list_agents both_keys_env 100 0 = Some (Inr [item ''1''], 1)
   \<and> list_agents both_keys_env 100 0
       \<noteq> Some (Inr (concat (map (\<lambda>r. first_present (agents r) (agentSummaries r))
                                [both_keys_page])), 1)"
proof -
  have "list_agents both_keys_env 100 0
        = Some (Inr (concat (map agent_items [both_keys_page])), 1)"
    by (rule list_agents_iff [THEN iffD2], rule exI [of _ "[both_keys_page]"], rule conjI,
        rule both_keys_env_pages, rule refl)
  moreover have "agent_items both_keys_page = [item ''1'']"
    by (simp add: agent_items_def both_keys_page_def no_response_def or_list_def or_else_def
        truthy_def)
  moreover have "first_present (agents both_keys_page) (agentSummaries both_keys_page) = []"
    by (simp add: first_present_def both_keys_page_def no_response_def)
  ultimately show ?thesis by simp
qed

text \<open>
  Claim C8, amended. \<open>list_agents\<close> and \<open>list_aliases\<close> return exactly when the service
  serves a finite run of pages from no token on, each request carrying the token of the
  page before and the run ending at the first page whose token is absent or empty; the
  result is the concatenation, in order, of the items of these pages, and the state is the
  one after the last of them. The items of a page are the list under the first key when
  that list is present and not empty, else the list under the second key when that one is
  present and not empty, else none.
\<close>

theorem list_pages_concat:
  "(list_agents E mr s = Some (Inr xs, s') \<longleftrightarrow>
      (\<exists>rs. pages (api_list_agents E mr) None s rs s' \<and> xs = concat (map agent_items rs)))
   \<and> (list_aliases E i mr s = Some (Inr ys, s'') \<longleftrightarrow>
      (\<exists>rs. pages (api_list_agent_aliases E i mr) None s rs s''
            \<and> ys = concat (map alias_items rs)))
   \<and> (truthy (agents r) \<longrightarrow> Some (agent_items r) = agents r)
   \<and> (\<not> truthy (agents r) \<and> truthy (agentSummaries r) \<longrightarrow>
        Some (agent_items r) = agentSummaries r)
   \<and> (\<not> truthy (agents r) \<and> \<not> truthy (agentSummaries r) \<longrightarrow> agent_items r = [])
   \<and> (truthy (agentAliasSummaries r) \<longrightarrow> Some (alias_items r) = agentAliasSummaries r)
   \<and> (\<not> truthy (agentAliasSummaries r) \<and> truthy (agentAliases r) \<longrightarrow>
        Some (alias_items r) = agentAliases r)
   \<and> (\<not> truthy (agentAliasSummaries r) \<and> \<not> truthy (agentAliases r) \<longrightarrow>
        alias_items r = [])"
proof (intro conjI)
  show "list_agents E mr s = Some (Inr xs, s') \<longleftrightarrow>
      (\<exists>rs. pages (api_list_agents E mr) None s rs s' \<and> xs = concat (map agent_items rs))"
    by (rule list_agents_iff)
  show "list_aliases E i mr s = Some (Inr ys, s'') \<longleftrightarrow>
      (\<exists>rs. pages (api_list_agent_aliases E i mr) None s rs s''
            \<and> ys = concat (map alias_items rs))"
    by (rule list_aliases_iff)
qed (use or_items [of "agents r" "agentSummaries r"]
       or_items [of "agentAliasSummaries r" "agentAliases r"]
     in \<open>simp_all add: agent_items_def alias_items_def\<close>)

theorem list_pages_concat_witness:
  "list_agents paged_env 100 0
     = Some (Inr [item ''1'', item ''2'', item ''3'', item ''4'', item ''5'', item ''6''], 3)
   \<and> list_aliases paged_env ''A1'' 100 0
     = Some (Inr [item ''1'', item ''2'', item ''3'', item ''4'', item ''5'', item ''6''], 3)
   \<and> agent_items (no_response\<lparr>agents := Some [item ''1'', item ''2'']\<rparr>)
     = [item ''1'', item ''2'']
   \<and> agent_items (no_response\<lparr>agentSummaries := Some [item ''3'', item ''4'']\<rparr>)
     = [item ''3'', item ''4'']
   \<and> agent_items no_response = []
   \<and> alias_items (no_response\<lparr>agentAliasSummaries := Some [item ''1'']\<rparr>) = [item ''1'']
   \<and> alias_items (no_response\<lparr>agentAliases := Some [item ''3'']\<rparr>) = [item ''3'']
   \<and> alias_items no_response = []"
proof -
  let ?ps = "[no_response\<lparr>agents := Some [item ''1'', item ''2''], nextToken := Some ''t1''\<rparr>,
      no_response\<lparr>agentSummaries := Some [item ''3'', item ''4''], nextToken := Some ''t2''\<rparr>,
      no_response\<lparr>agents := Some [item ''5'', item ''6'']\<rparr>]"
  let ?qs = "[no_response\<lparr>agentAliasSummaries := Some [item ''1'', item ''2''],
                  nextToken := Some ''t1''\<rparr>,
      no_response\<lparr>agentAliases := Some [item ''3'', item ''4''], nextToken := Some ''t2''\<rparr>,
      no_response\<lparr>agentAliasSummaries := Some [item ''5'', item ''6'']\<rparr>]"
  note c1 = list_pages_concat [THEN conjunct1, THEN iffD2]
  note c2 = list_pages_concat [THEN conjunct2, THEN conjunct1, THEN iffD2]
  note c3 = list_pages_concat [THEN conjunct2, THEN conjunct2, THEN conjunct1, THEN mp]
  note c4 = list_pages_concat [THEN conjunct2, THEN conjunct2, THEN conjunct2, THEN conjunct1,
      THEN mp]
  note c5 = list_pages_concat [THEN conjunct2, THEN conjunct2, THEN conjunct2, THEN conjunct2,
      THEN conjunct1, THEN mp]
  note c6 = list_pages_concat [THEN conjunct2, THEN conjunct2, THEN conjunct2, THEN conjunct2,
      THEN conjunct2, THEN conjunct1, THEN mp]
  note c7 = list_pages_concat [THEN conjunct2, THEN conjunct2, THEN conjunct2, THEN conjunct2,
      THEN conjunct2, THEN conjunct2, THEN conjunct1, THEN mp]
  note c8 = list_pages_concat [THEN conjunct2, THEN conjunct2, THEN conjunct2, THEN conjunct2,
      THEN conjunct2, THEN conjunct2, THEN conjunct2, THEN mp]
  have a: "list_agents paged_env 100 0 = Some (Inr (concat (map agent_items ?ps)), 3)"
    by (rule c1, rule exI [of _ ?ps], rule conjI, rule paged_env_agent_pages, rule refl)
  have b: "list_aliases paged_env ''A1'' 100 0 = Some (Inr (concat (map alias_items ?qs)), 3)"
    by (rule c2, rule exI [of _ ?qs], rule conjI, rule paged_env_alias_pages, rule refl)
  have "Some (agent_items (no_response\<lparr>agents := Some [item ''1'', item ''2'']\<rparr>))
        = agents (no_response\<lparr>agents := Some [item ''1'', item ''2'']\<rparr>)"
    by (rule c3) (simp add: truthy_def)
  then have c: "agent_items (no_response\<lparr>agents := Some [item ''1'', item ''2'']\<rparr>)
           = [item ''1'', item ''2'']"
    by simp
  have "Some (agent_items (no_response\<lparr>agentSummaries := Some [item ''3'', item ''4'']\<rparr>))
        = agentSummaries (no_response\<lparr>agentSummaries := Some [item ''3'', item ''4'']\<rparr>)"
    by (rule c4) (simp add: truthy_def no_response_def)
  then have d: "agent_items (no_response\<lparr>agentSummaries := Some [item ''3'', item ''4'']\<rparr>)
           = [item ''3'', item ''4'']"
    by simp
  have e: "agent_items no_response = []"
    by (rule c5) (simp add: truthy_def no_response_def)
  have "Some (alias_items (no_response\<lparr>agentAliasSummaries := Some [item ''1'']\<rparr>))
        = agentAliasSummaries (no_response\<lparr>agentAliasSummaries := Some [item ''1'']\<rparr>)"
    by (rule c6) (simp add: truthy_def)
  then have f: "alias_items (no_response\<lparr>agentAliasSummaries := Some [item ''1'']\<rparr>)
                = [item ''1'']"
    by simp
  have "Some (alias_items (no_response\<lparr>agentAliases := Some [item ''3'']\<rparr>))
        = agentAliases (no_response\<lparr>agentAliases := Some [item ''3'']\<rparr>)"
    by (rule c7) (simp add: truthy_def no_response_def)
  then have g: "alias_items (no_response\<lparr>agentAliases := Some [item ''3'']\<rparr>) = [item ''3'']"
    by simp
  have h: "alias_items no_response = []"
    by (rule c8) (simp add: truthy_def no_response_def)
  have items: "concat (map agent_items ?ps)
               = [item ''1'', item ''2'', item ''3'', item ''4'', item ''5'', item ''6'']"
    by (simp add: agent_items_def no_response_def or_list_def or_else_def truthy_def)
  have aitems: "concat (map alias_items ?qs)
               = [item ''1'', item ''2'', item ''3'', item ''4'', item ''5'', item ''6'']"
    by (simp add: alias_items_def no_response_def or_list_def or_else_def truthy_def)
  show ?thesis
    unfolding a b c d e f g h items aitems by simp
qed

section \<open>Invocation\<close>

lemma collect_chunks_eq:
  "collect_chunks E chunks evs = chunks @ concat (map (event_chunks E) evs)"
  by (induction evs arbitrary: chunks) simp_all

lemma py_strip_trimmed:
  "py_strip s = [] \<or> (\<not> py_isspace (hd (py_strip s)) \<and> \<not> py_isspace (last (py_strip s)))"
proof (cases "py_strip s = []")
  case True
  then show ?thesis by simp
next
  case False
  define m where "m = dropWhile py_isspace s"
  define d where "d = dropWhile py_isspace (rev m)"
  have ps: "py_strip s = rev d" by (simp add: py_strip_def d_def m_def)
  with False have dn: "d \<noteq> []" by simp
  then have "\<not> py_isspace (hd d)" unfolding d_def by (rule hd_dropWhile)
  then have l: "\<not> py_isspace (last (py_strip s))" using dn ps by (simp add: last_rev)
  have mn: "m \<noteq> []" using dn d_def by auto
  then have hm: "\<not> py_isspace (hd m)" unfolding m_def by (rule hd_dropWhile)
  obtain t where t: "rev m = t @ d"
    unfolding d_def by (metis takeWhile_dropWhile_id)
  then have "m = rev d @ rev t" by (metis rev_append rev_rev_ident)
  with dn have "hd m = hd (rev d)" by simp
  with hm ps have "\<not> py_isspace (hd (py_strip s))" by simp
  with l show ?thesis by simp
qed

lemma py_strip_inside:
  "\<exists>l r. s = l @ py_strip s @ r \<and> list_all py_isspace l \<and> list_all py_isspace r"
proof -
  define m where "m = dropWhile py_isspace s"
  have 1: "s = takeWhile py_isspace s @ m" by (simp add: m_def)
  have "rev m = takeWhile py_isspace (rev m) @ dropWhile py_isspace (rev m)" by simp
  then have "m = rev (dropWhile py_isspace (rev m)) @ rev (takeWhile py_isspace (rev m))"
    by (metis rev_append rev_rev_ident)
  then have 2: "m = py_strip s @ rev (takeWhile py_isspace (rev m))"
    by (simp add: py_strip_def m_def)
  have 3: "list_all py_isspace (takeWhile py_isspace s)"
    by (simp add: list_all_iff) (meson set_takeWhileD)
  have 4: "list_all py_isspace (rev (takeWhile py_isspace (rev m)))"
    by (simp add: list_all_iff) (meson set_takeWhileD)
  from 1 2 have "s = takeWhile py_isspace s @ py_strip s @ rev (takeWhile py_isspace (rev m))"
    by simp
  with 3 4 show ?thesis by blast
qed

lemma invoke_stream_ok:
  assumes "session_or_new E session_id s = (sid, s0)"
    and "api_invoke_agent E \<lparr>agentId = a, agentAliasId = al, inputText = t,
                              sessionId = sid, enableTrace = tr\<rparr> s0 = (Inr resp, s1)"
    and "or_stream (completion resp) = EventStream evs None"
  shows "invoke E a al t session_id tr s
         = (Inr (py_strip (concat (concat (map (event_chunks E) evs)))), s1)"
  using assms by (simp add: invoke_def collect_chunks_eq)

lemma invoke_call_raises:
  assumes "session_or_new E session_id s = (sid, s0)"
    and "api_invoke_agent E \<lparr>agentId = a, agentAliasId = al, inputText = t,
                              sessionId = sid, enableTrace = tr\<rparr> s0 = (Inl e, s1)"
  shows "invoke E a al t session_id tr s = (Inl (invoke_except e), s1)"
  using assms by (simp add: invoke_def)

lemma invoke_stream_raises:
  assumes "session_or_new E session_id s = (sid, s0)"
    and "api_invoke_agent E \<lparr>agentId = a, agentAliasId = al, inputText = t,
                              sessionId = sid, enableTrace = tr\<rparr> s0 = (Inr resp, s1)"
    and "or_stream (completion resp) = EventStream evs (Some e)"
  shows "invoke E a al t session_id tr s = (Inl (invoke_except e), s1)"
  using assms by (simp add: invoke_def)

text \<open>
  Claim C7. When the call is accepted and the stream ends without raising, \<open>invoke\<close>
  returns the texts appended for the events, joined in the order of arrival and stripped:
  the result neither starts nor ends with white space, and only white space was removed
  around it. On the stream \<open>[data("Hel"), data("lo"), final(" world")]\<close> the result is
  \<open>Hello world\<close>.
\<close>

theorem invoke_concatenates:
  assumes "session_or_new E session_id s = (sid, s0)"
    and "api_invoke_agent E \<lparr>agentId = a, agentAliasId = al, inputText = t,
                              sessionId = sid, enableTrace = tr\<rparr> s0 = (Inr resp, s1)"
    and "or_stream (completion resp) = EventStream evs None"
  shows "(\<exists>r l l'. invoke E a al t session_id tr s = (Inr r, s1)
            \<and> r = py_strip (concat (concat (map (event_chunks E) evs)))
            \<and> (r = [] \<or> (\<not> py_isspace (hd r) \<and> \<not> py_isspace (last r)))
            \<and> concat (concat (map (event_chunks E) evs)) = l @ r @ l'
            \<and> list_all py_isspace l \<and> list_all py_isspace l')
         \<and> invoke hello_env ''A1'' ''B2'' ''Say hello'' None False ()
             = (Inr ''Hello world'', ())"
proof -
  let ?joined = "concat (concat (map (event_chunks E) evs))"
  have r: "invoke E a al t session_id tr s = (Inr (py_strip ?joined), s1)"
    using assms by (rule invoke_stream_ok)
  obtain l l' where "?joined = l @ py_strip ?joined @ l'"
    "list_all py_isspace l" "list_all py_isspace l'"
    using py_strip_inside [of ?joined] by blast
  with r py_strip_trimmed [of ?joined]
  have "\<exists>r l l'. invoke E a al t session_id tr s = (Inr r, s1)
            \<and> r = py_strip ?joined
            \<and> (r = [] \<or> (\<not> py_isspace (hd r) \<and> \<not> py_isspace (last r)))
            \<and> ?joined = l @ r @ l'
            \<and> list_all py_isspace l \<and> list_all py_isspace l'"
    by blast
  moreover have "invoke hello_env ''A1'' ''B2'' ''Say hello'' None False ()
                 = (Inr ''Hello world'', ())"
    by (simp add: invoke_def hello_env_def stub_env_def session_or_new_def or_stream_def
        hello_stream_def event_chunks_def or_list_def py_strip_def py_isspace_def)
  ultimately show ?thesis by blast
qed

theorem invoke_concatenates_witness:
  "session_or_new padded_env (Some ''session-1'') () = (''session-1'', ())
   \<and> api_invoke_agent padded_env
        \<lparr>agentId = ''A1'', agentAliasId = ''B2'', inputText = ''Say hello'',
         sessionId = ''session-1'', enableTrace = False\<rparr> ()
       = (Inr \<lparr>completion = Some padded_stream\<rparr>, ())
   \<and> invoke padded_env ''A1'' ''B2'' ''Say hello'' (Some ''session-1'') False ()
       = (Inr ''Hi there'', ())"
proof -
  let ?evs = "[\<lparr>chunk = Some (Some ''  Hi''), finalResponse = None\<rparr>,
        \<lparr>chunk = None, finalResponse = None\<rparr>,
        \<lparr>chunk = Some None, finalResponse = None\<rparr>,
        \<lparr>chunk = None, finalResponse = Some None\<rparr>,
        \<lparr>chunk = None, finalResponse = Some (Some '' there  '')\<rparr>]"
  have h1: "session_or_new padded_env (Some ''session-1'') () = (''session-1'', ())"
    by (simp add: session_or_new_def)
  have h2: "api_invoke_agent padded_env
        \<lparr>agentId = ''A1'', agentAliasId = ''B2'', inputText = ''Say hello'',
         sessionId = ''session-1'', enableTrace = False\<rparr> ()
       = (Inr \<lparr>completion = Some padded_stream\<rparr>, ())"
    by (simp add: padded_env_def stub_env_def)
  have h3: "or_stream (completion \<lparr>completion = Some padded_stream\<rparr>)
            = EventStream ?evs None"
    by (simp add: or_stream_def padded_stream_def)
  have j: "py_strip (concat (concat (map (event_chunks padded_env) ?evs))) = ''Hi there''"
    by (simp add: event_chunks_def or_list_def padded_env_def stub_env_def py_strip_def
        py_isspace_def)
  from invoke_concatenates [OF h1 h2 h3] j
  have "invoke padded_env ''A1'' ''B2'' ''Say hello'' (Some ''session-1'') False ()
        = (Inr ''Hi there'', ())"
    by auto
  with h1 h2 show ?thesis by simp
qed

text \<open>
  The second handler of \<open>invoke\<close> is never entered: whatever it would catch is a
  \<open>ClientError\<close> and is taken by the first.
\<close>

lemma invoke_except_first_handler:
  "isinstance_EventStreamError e \<Longrightarrow> isinstance_ClientError e"
  by (cases e) simp_all

lemma invoke_except_denied:
  assumes "isinstance_ClientError e"
    and "error_code e = Some ''AccessDeniedException''
         \<or> error_code e = Some ''accessDeniedException''"
  shows "invoke_except e = RuntimeError access_denied_invoking"
  using assms by (auto simp: invoke_except_def or_list_def)

text \<open>
  Claim C3. An error with an access-denied code, raised by the call itself or raised by
  the stream while it is read, leaves \<open>invoke\<close> as a \<open>RuntimeError\<close> with one and the same
  message, and that message names \<open>bedrock:InvokeAgent\<close> and
  \<open>bedrock:InvokeModelWithResponseStream\<close>. The error of the call is a \<open>ClientError\<close>,
  the error of the stream an \<open>EventStreamError\<close>, which is a \<open>ClientError\<close> too.
\<close>

theorem invoke_access_denied:
  assumes "session_or_new E session_id s = (sid, s0)"
    and "isinstance_ClientError e1"
    and "error_code e1 = Some ''AccessDeniedException''
         \<or> error_code e1 = Some ''accessDeniedException''"
    and "isinstance_EventStreamError e2"
    and "error_code e2 = Some ''AccessDeniedException''
         \<or> error_code e2 = Some ''accessDeniedException''"
  shows "(api_invoke_agent E \<lparr>agentId = a, agentAliasId = al, inputText = t,
                              sessionId = sid, enableTrace = tr\<rparr> s0 = (Inl e1, s1)
          \<longrightarrow> invoke E a al t session_id tr s
                = (Inl (RuntimeError access_denied_invoking), s1))
       \<and> (api_invoke_agent E \<lparr>agentId = a, agentAliasId = al, inputText = t,
                              sessionId = sid, enableTrace = tr\<rparr> s0 = (Inr resp, s1)
          \<and> or_stream (completion resp) = EventStream evs (Some e2)
          \<longrightarrow> invoke E a al t session_id tr s
                = (Inl (RuntimeError access_denied_invoking), s1))
       \<and> contains access_denied_invoking ''bedrock:InvokeAgent''
       \<and> contains access_denied_invoking ''bedrock:InvokeModelWithResponseStream''"
proof -
  have d1: "invoke_except e1 = RuntimeError access_denied_invoking"
    using assms(2,3) by (rule invoke_except_denied)
  have d2: "invoke_except e2 = RuntimeError access_denied_invoking"
    using invoke_except_first_handler [OF assms(4)] assms(5) by (rule invoke_except_denied)
  have m: "contains access_denied_invoking ''bedrock:InvokeAgent''
           \<and> contains access_denied_invoking ''bedrock:InvokeModelWithResponseStream''"
    unfolding access_denied_invoking_def contains_def by code_simp
  show ?thesis
    using invoke_call_raises [OF assms(1)] invoke_stream_raises [OF assms(1)] d1 d2 m
    by metis
qed

theorem invoke_access_denied_witness:
  "session_or_new denied_call_env None ()
     = (''00000000-0000-4000-8000-000000000000'', ())
   \<and> isinstance_ClientError denied_call
   \<and> error_code denied_call = Some ''AccessDeniedException''
   \<and> isinstance_EventStreamError denied_stream
   \<and> error_code denied_stream = Some ''accessDeniedException''
   \<and> invoke denied_call_env ''A1'' ''B2'' ''Say hello'' None False ()
       = (Inl (RuntimeError access_denied_invoking), ())
   \<and> invoke denied_stream_env ''A1'' ''B2'' ''Say hello'' None False ()
       = (Inl (RuntimeError access_denied_invoking), ())"
proof -
  let ?u = "''00000000-0000-4000-8000-000000000000''"
  let ?kw = "\<lparr>agentId = ''A1'', agentAliasId = ''B2'', inputText = ''Say hello'',
              sessionId = ?u, enableTrace = False\<rparr>"
  let ?resp = "\<lparr>completion = Some (EventStream
               [\<lparr>chunk = Some (Some ''Hel''), finalResponse = None\<rparr>]
               (Some denied_stream))\<rparr>"
  have s1: "session_or_new denied_call_env None () = (?u, ())"
    by (simp add: session_or_new_def denied_call_env_def stub_env_def)
  have s2: "session_or_new denied_stream_env None () = (?u, ())"
    by (simp add: session_or_new_def denied_stream_env_def stub_env_def)
  have i1: "isinstance_ClientError denied_call" by (simp add: denied_call_def)
  have c1: "error_code denied_call = Some ''AccessDeniedException''"
    by (simp add: denied_call_def)
  have i2: "isinstance_EventStreamError denied_stream" by (simp add: denied_stream_def)
  have c2: "error_code denied_stream = Some ''accessDeniedException''"
    by (simp add: denied_stream_def)
  have a1: "api_invoke_agent denied_call_env ?kw () = (Inl denied_call, ())"
    by (simp add: denied_call_env_def stub_env_def)
  have a2: "api_invoke_agent denied_stream_env ?kw () = (Inr ?resp, ())
            \<and> or_stream (completion ?resp)
                = EventStream [\<lparr>chunk = Some (Some ''Hel''), finalResponse = None\<rparr>]
                    (Some denied_stream)"
    by (simp add: denied_stream_env_def stub_env_def or_stream_def)
  have r1: "invoke denied_call_env ''A1'' ''B2'' ''Say hello'' None False ()
            = (Inl (RuntimeError access_denied_invoking), ())"
    using invoke_access_denied [OF s1 i1 disjI1 [OF c1] i2 disjI2 [OF c2],
        THEN conjunct1, THEN mp, OF a1] .
  have r2: "invoke denied_stream_env ''A1'' ''B2'' ''Say hello'' None False ()
            = (Inl (RuntimeError access_denied_invoking), ())"
    using invoke_access_denied [OF s2 i1 disjI1 [OF c1] i2 disjI2 [OF c2],
        THEN conjunct2, THEN conjunct1, THEN mp, OF a2] .
  from s1 i1 c1 i2 c2 r1 r2 show ?thesis by blast
qed

section \<open>Creation\<close>

lemma list_agents_one_page:
  assumes "api_list_agents E mr None s = (Inr r, s')" "\<not> truthy (nextToken r)"
  shows "list_agents E mr s = Some (Inr (agent_items r), s')"
  using assms
  by (simp add: list_agents_def list_agents_loop.simps [of E mr "[]" None s] truthy_def)

lemma create_agent_created:
  assumes "uuid4 E s = (tok, s0)"
    and "api_create_agent E (create_kwargs cfg tok) s0 = (Inr resp, s1)"
    and "agent resp = Some a"
  shows "create_agent E cfg s = Some (Inr a, s1)"
  using assms by (simp add: create_agent_def)

lemma create_agent_other_error:
  assumes "uuid4 E s = (tok, s0)"
    and "api_create_agent E (create_kwargs cfg tok) s0 = (Inl e, s1)"
    and "\<not> (isinstance_ClientError e \<and> error_code e = Some ''ConflictException'')"
  shows "create_agent E cfg s = Some (Inl e, s1)"
  using assms by (auto simp add: create_agent_def)

lemma create_agent_conflict_found:
  assumes "uuid4 E s = (tok, s0)"
    and "api_create_agent E (create_kwargs cfg tok) s0 = (Inl e, s1)"
    and "isinstance_ClientError e" and "error_code e = Some ''ConflictException''"
    and "list_agents E 100 s1 = Some (Inr as, s2)"
    and "find (\<lambda>a. dict_get a ''agentName'' = Some (agent_name cfg)) as = Some ex"
    and "dict_get ex ''agentId'' = Some i" and "i \<noteq> []"
  shows "create_agent E cfg s = Some (get_agent E i s2)"
proof -
  have "ex \<noteq> []"
    using assms(7) by (auto simp: dict_get_def)
  with assms show ?thesis
    by (simp add: create_agent_def find_agent_by_name_def truthy_def)
qed

lemma create_agent_conflict_not_found:
  assumes "uuid4 E s = (tok, s0)"
    and "api_create_agent E (create_kwargs cfg tok) s0 = (Inl e, s1)"
    and "isinstance_ClientError e" and "error_code e = Some ''ConflictException''"
    and "list_agents E 100 s1 = Some (Inr as, s2)"
    and "find (\<lambda>a. dict_get a ''agentName'' = Some (agent_name cfg)) as = None
         \<or> (\<exists>ex. find (\<lambda>a. dict_get a ''agentName'' = Some (agent_name cfg)) as = Some ex
                  \<and> \<not> truthy (dict_get ex ''agentId''))"
  shows "create_agent E cfg s = Some (Inl e, s2)"
  using assms by (auto simp add: create_agent_def find_agent_by_name_def)

lemma registry_first_call:
  "create_agent registry_env demo_cfg [] =
   Some (Inr (new_record (create_kwargs demo_cfg ''00000000-0000-4000-8000-000000000000'')),
         [new_record (create_kwargs demo_cfg ''00000000-0000-4000-8000-000000000000'')])"
proof -
  let ?u = "''00000000-0000-4000-8000-000000000000''"
  let ?rec = "new_record (create_kwargs demo_cfg ?u)"
  have u: "uuid4 registry_env [] = (?u, [])"
    by (simp add: registry_env_def stub_env_def)
  have c: "api_create_agent registry_env (create_kwargs demo_cfg ?u) []
           = (Inr (no_response\<lparr>agent := Some ?rec\<rparr>), [?rec])"
    by (simp add: registry_env_def stub_env_def)
  have a: "agent (no_response\<lparr>agent := Some ?rec\<rparr>) = Some ?rec" by simp
  show ?thesis using u c a by (rule create_agent_created)
qed

lemma conflict_env_list: "list_agents conflict_env 100 () = Some (Inr [], ())"
proof -
  have "list_agents conflict_env 100 ()
        = Some (Inr (agent_items (no_response\<lparr>agentSummaries := Some []\<rparr>)), ())"
    by (rule list_agents_one_page)
      (simp_all add: conflict_env_def stub_env_def no_response_def truthy_def)
  then show ?thesis
    by (simp add: agent_items_def or_list_def or_else_def truthy_def no_response_def)
qed

text \<open>
  Claim C10. When creation is refused with \<open>ConflictException\<close> and the listing has no
  agent of the requested name, or the first one it has carries no (or an empty)
  \<open>agentId\<close>, \<open>create_agent\<close> raises the conflict error it caught.
\<close>

theorem create_agent_conflict_reraised:
  assumes "uuid4 E s = (tok, s0)"
    and "api_create_agent E (create_kwargs cfg tok) s0 = (Inl e, s1)"
    and "isinstance_ClientError e" and "error_code e = Some ''ConflictException''"
    and "list_agents E 100 s1 = Some (Inr as, s2)"
    and "find (\<lambda>a. dict_get a ''agentName'' = Some (agent_name cfg)) as = None
         \<or> (\<exists>ex. find (\<lambda>a. dict_get a ''agentName'' = Some (agent_name cfg)) as = Some ex
                  \<and> \<not> truthy (dict_get ex ''agentId''))"
  shows "create_agent E cfg s = Some (Inl e, s2)"
  using assms by (rule create_agent_conflict_not_found)

theorem create_agent_conflict_reraised_witness:
  "uuid4 conflict_env () = (''00000000-0000-4000-8000-000000000000'', ())
   \<and> api_create_agent conflict_env
        (create_kwargs demo_cfg ''00000000-0000-4000-8000-000000000000'') ()
       = (Inl conflict, ())
   \<and> isinstance_ClientError conflict
   \<and> error_code conflict = Some ''ConflictException''
   \<and> list_agents conflict_env 100 () = Some (Inr [], ())
   \<and> find (\<lambda>a. dict_get a ''agentName'' = Some (agent_name demo_cfg)) [] = None
   \<and> create_agent conflict_env demo_cfg () = Some (Inl conflict, ())"
proof -
  let ?u = "''00000000-0000-4000-8000-000000000000''"
  have u: "uuid4 conflict_env () = (?u, ())"
    by (simp add: conflict_env_def stub_env_def)
  have c: "api_create_agent conflict_env (create_kwargs demo_cfg ?u) () = (Inl conflict, ())"
    by (simp add: conflict_env_def stub_env_def)
  have i: "isinstance_ClientError conflict" by (simp add: conflict_def)
  have k: "error_code conflict = Some ''ConflictException''" by (simp add: conflict_def)
  have f: "find (\<lambda>a. dict_get a ''agentName'' = Some (agent_name demo_cfg)) [] = None"
    by simp
  have "create_agent conflict_env demo_cfg () = Some (Inl conflict, ())"
    using u c i k conflict_env_list disjI1 [OF f]
    by (rule create_agent_conflict_reraised)
  with u c i k conflict_env_list f show ?thesis by blast
qed

text \<open>
  Claim C1, as stated, fails when the conflict is not followed by a successful lookup:
  creation is refused with \<open>ConflictException\<close>, the listing has no agent of that name,
  and \<open>create_agent\<close> fails with the conflict error.
\<close>

theorem create_agent_conflict_fails:
  "api_create_agent conflict_env
        (create_kwargs demo_cfg ''00000000-0000-4000-8000-000000000000'') ()
       = (Inl conflict, ())
   \<and> error_code conflict = Some ''ConflictException''
   \<and> create_agent conflict_env demo_cfg () = Some (Inl conflict, ())"
proof -
  let ?u = "''00000000-0000-4000-8000-000000000000''"
  have u: "uuid4 conflict_env () = (?u, ())"
    by (simp add: conflict_env_def stub_env_def)
  have c: "api_create_agent conflict_env (create_kwargs demo_cfg ?u) () = (Inl conflict, ())"
    by (simp add: conflict_env_def stub_env_def)
  have i: "isinstance_ClientError conflict" by (simp add: conflict_def)
  have k: "error_code conflict = Some ''ConflictException''" by (simp add: conflict_def)
  have f: "find (\<lambda>a. dict_get a ''agentName'' = Some (agent_name demo_cfg)) [] = None"
    by simp
  have "create_agent conflict_env demo_cfg () = Some (Inl conflict, ())"
    using u c i k conflict_env_list disjI1 [OF f]
    by (rule create_agent_conflict_not_found)
  with c k show ?thesis by blast
qed

text \<open>
  Claim C1, amended. When creation is refused with \<open>ConflictException\<close> and the listing
  has an agent of the requested name with a non-empty \<open>agentId\<close>, \<open>create_agent\<close> does
  what \<open>get_agent\<close> does for that id. So if an earlier call has returned a record and the
  service now lists the agent under that record's id and returns it for that id, the
  second call returns a record with the same id. An error of the creation call that is
  not a \<open>ClientError\<close> with the code \<open>ConflictException\<close> leaves \<open>create_agent\<close> as it is.
\<close>

theorem create_agent_idempotent:
  assumes "uuid4 E s = (tok, s0)"
    and "api_create_agent E (create_kwargs cfg tok) s0 = (Inl e, s1)"
  shows "(isinstance_ClientError e \<and> error_code e = Some ''ConflictException''
          \<and> list_agents E 100 s1 = Some (Inr as, s2)
          \<and> find (\<lambda>a. dict_get a ''agentName'' = Some (agent_name cfg)) as = Some ex
          \<and> dict_get ex ''agentId'' = Some i \<and> i \<noteq> []
          \<longrightarrow> create_agent E cfg s = Some (get_agent E i s2)
              \<and> (create_agent E cfg0 s00 = Some (Inr r1, s)
                  \<and> agent_name cfg0 = agent_name cfg
                  \<and> dict_get r1 ''agentId'' = Some i
                  \<and> get_agent E i s2 = (Inr r2, s3) \<and> dict_get r2 ''agentId'' = Some i
                  \<longrightarrow> create_agent E cfg s = Some (Inr r2, s3)
                      \<and> dict_get r2 ''agentId'' = dict_get r1 ''agentId''))
       \<and> (\<not> (isinstance_ClientError e \<and> error_code e = Some ''ConflictException'')
          \<longrightarrow> create_agent E cfg s = Some (Inl e, s1))"
proof (intro conjI impI)
  assume h: "isinstance_ClientError e \<and> error_code e = Some ''ConflictException''
          \<and> list_agents E 100 s1 = Some (Inr as, s2)
          \<and> find (\<lambda>a. dict_get a ''agentName'' = Some (agent_name cfg)) as = Some ex
          \<and> dict_get ex ''agentId'' = Some i \<and> i \<noteq> []"
  from h have e: "isinstance_ClientError e" "error_code e = Some ''ConflictException''"
    and l: "list_agents E 100 s1 = Some (Inr as, s2)"
    and f: "find (\<lambda>a. dict_get a ''agentName'' = Some (agent_name cfg)) as = Some ex"
    and i: "dict_get ex ''agentId'' = Some i" "i \<noteq> []"
    by blast+
  show found: "create_agent E cfg s = Some (get_agent E i s2)"
    using assms e l f i by (rule create_agent_conflict_found)
  assume "create_agent E cfg0 s00 = Some (Inr r1, s)
          \<and> agent_name cfg0 = agent_name cfg
          \<and> dict_get r1 ''agentId'' = Some i
          \<and> get_agent E i s2 = (Inr r2, s3) \<and> dict_get r2 ''agentId'' = Some i"
  with found show "create_agent E cfg s = Some (Inr r2, s3)"
    and "dict_get r2 ''agentId'' = dict_get r1 ''agentId''"
    by simp_all
next
  assume "\<not> (isinstance_ClientError e \<and> error_code e = Some ''ConflictException'')"
  with assms show "create_agent E cfg s = Some (Inl e, s1)"
    by (rule create_agent_other_error)
qed

theorem create_agent_idempotent_witness:
  "create_agent registry_env demo_cfg []
     = Some (Inr (new_record (create_kwargs demo_cfg ''00000000-0000-4000-8000-000000000000'')),
             [new_record (create_kwargs demo_cfg ''00000000-0000-4000-8000-000000000000'')])
   \<and> api_create_agent registry_env
        (create_kwargs demo_cfg ''00000000-0000-4000-8000-000000000000'')
        [new_record (create_kwargs demo_cfg ''00000000-0000-4000-8000-000000000000'')]
       = (Inl conflict,
          [new_record (create_kwargs demo_cfg ''00000000-0000-4000-8000-000000000000'')])
   \<and> isinstance_ClientError conflict \<and> error_code conflict = Some ''ConflictException''
   \<and> create_agent registry_env demo_cfg
        [new_record (create_kwargs demo_cfg ''00000000-0000-4000-8000-000000000000'')]
       = Some (Inr (new_record (create_kwargs demo_cfg
                      ''00000000-0000-4000-8000-000000000000'')),
               [new_record (create_kwargs demo_cfg ''00000000-0000-4000-8000-000000000000'')])
   \<and> dict_get (new_record (create_kwargs demo_cfg ''00000000-0000-4000-8000-000000000000''))
        ''agentId'' = Some ''ID-strand-demo-agent''
   \<and> api_create_agent (stub_env :: unit env)
        (create_kwargs demo_cfg ''00000000-0000-4000-8000-000000000000'') ()
       = (Inl unavailable, ())
   \<and> error_code unavailable \<noteq> Some ''ConflictException''
   \<and> create_agent (stub_env :: unit env) demo_cfg () = Some (Inl unavailable, ())"
proof -
  let ?u = "''00000000-0000-4000-8000-000000000000''"
  let ?rec = "new_record (create_kwargs demo_cfg ?u)"
  have n: "dict_get ?rec ''agentName'' = Some ''strand-demo-agent''"
    by (simp add: new_record_def dict_get_def create_kwargs_def demo_cfg_def)
  have an: "agent_name demo_cfg = ''strand-demo-agent''" by (simp add: demo_cfg_def)
  have kn: "agentName (create_kwargs demo_cfg ?u) = ''strand-demo-agent''"
    by (simp add: create_kwargs_def demo_cfg_def)
  have ai: "dict_get ?rec ''agentId'' = Some ''ID-strand-demo-agent''"
    by (simp add: new_record_def dict_get_def create_kwargs_def demo_cfg_def)
  have u: "uuid4 registry_env [?rec] = (?u, [?rec])"
    by (simp add: registry_env_def stub_env_def)
  have c: "api_create_agent registry_env (create_kwargs demo_cfg ?u) [?rec]
           = (Inl conflict, [?rec])"
    by (simp add: registry_env_def stub_env_def n kn)
  have i: "isinstance_ClientError conflict" by (simp add: conflict_def)
  have k: "error_code conflict = Some ''ConflictException''" by (simp add: conflict_def)
  have l: "list_agents registry_env 100 [?rec] = Some (Inr [?rec], [?rec])"
  proof -
    have "list_agents registry_env 100 [?rec]
          = Some (Inr (agent_items (no_response\<lparr>agentSummaries := Some [?rec]\<rparr>)), [?rec])"
      by (rule list_agents_one_page)
        (simp_all add: registry_env_def stub_env_def no_response_def truthy_def)
    then show ?thesis
      by (simp add: agent_items_def or_list_def or_else_def truthy_def no_response_def)
  qed
  have f: "find (\<lambda>a. dict_get a ''agentName'' = Some (agent_name demo_cfg)) [?rec] = Some ?rec"
    by (simp add: n an)
  have ne: "''ID-strand-demo-agent'' \<noteq> []" by simp
  have g: "get_agent registry_env ''ID-strand-demo-agent'' [?rec] = (Inr ?rec, [?rec])"
    by (simp add: get_agent_def registry_env_def stub_env_def ai)
  note first = registry_first_call
  have second: "create_agent registry_env demo_cfg [?rec] = Some (Inr ?rec, [?rec])
                \<and> dict_get ?rec ''agentId'' = dict_get ?rec ''agentId''"
    using create_agent_idempotent [where as = "[?rec]" and ?s2.0 = "[?rec]" and ex = ?rec
          and i = "''ID-strand-demo-agent''" and ?cfg0.0 = demo_cfg and ?s00.0 = "[]"
          and ?r1.0 = ?rec and ?r2.0 = ?rec and ?s3.0 = "[?rec]",
        OF u c, THEN conjunct1, THEN mp, THEN conjunct2, THEN mp]
      i k l f ai ne first g
    by blast
  have su: "uuid4 (stub_env :: unit env) () = (?u, ())" by (simp add: stub_env_def)
  have sc: "api_create_agent (stub_env :: unit env) (create_kwargs demo_cfg ?u) ()
            = (Inl unavailable, ())"
    by (simp add: stub_env_def)
  have nk: "error_code unavailable \<noteq> Some ''ConflictException''"
    by (simp add: unavailable_def)
  have third: "create_agent (stub_env :: unit env) demo_cfg () = Some (Inl unavailable, ())"
    using create_agent_idempotent [OF su sc, THEN conjunct2, THEN mp] nk by blast
  from first c i k second ai sc nk third show ?thesis by blast
qed

section \<open>Waiting for a status\<close>

lemma wait_exit_desired:
  "poll_round E agent_id timeout_s start (Inr resp) s' \<Longrightarrow> agent resp = Some a \<Longrightarrow>
   dict_get a ''agentStatus'' = Some desired \<Longrightarrow>
   wait_exit E agent_id desired timeout_s poll_s start (Inr desired) s'"
  unfolding wait_exit_def by blast

lemma wait_exit_terminal:
  "poll_round E agent_id timeout_s start (Inr resp) s' \<Longrightarrow> agent resp = Some a \<Longrightarrow>
   dict_get a ''agentStatus'' = Some st \<Longrightarrow> st = ''FAILED'' \<or> st = ''DELETING'' \<Longrightarrow>
   st \<noteq> desired \<Longrightarrow>
   wait_exit E agent_id desired timeout_s poll_s start
     (Inl (RuntimeError (''Agent moved to terminal state: '' @ st))) s'"
  unfolding wait_exit_def by blast

lemma wait_exit_timeout:
  "time_time E sr = (now, s') \<Longrightarrow> \<not> now - start < of_int timeout_s \<Longrightarrow>
   wait_exit E agent_id desired timeout_s poll_s start
     (Inl (TimeoutError (''Timed out waiting for agent '' @ agent_id
                         @ '' to reach '' @ desired))) s'"
  unfolding wait_exit_def not_less by blast

lemma wait_exit_raised:
  "poll_round E agent_id timeout_s start (Inl e) s' \<Longrightarrow>
   wait_exit E agent_id desired timeout_s poll_s start (Inl e) s'"
  unfolding wait_exit_def by blast

lemma wait_exit_no_agent:
  "poll_round E agent_id timeout_s start (Inr resp) s' \<Longrightarrow> agent resp = None \<Longrightarrow>
   wait_exit E agent_id desired timeout_s poll_s start (Inl (KeyError ''agent'')) s'"
  unfolding wait_exit_def by blast

lemma wait_exit_negative:
  "poll_round E agent_id timeout_s start (Inr resp) s' \<Longrightarrow> poll_s < 0 \<Longrightarrow>
   wait_exit E agent_id desired timeout_s poll_s start
     (Inl (ValueError ''sleep length must be non-negative'')) s'"
  unfolding wait_exit_def by blast

lemma wait_loop_exits:
  assumes "wait_loop E agent_id desired timeout_s poll_s start s = Some y"
  shows "wait_exit E agent_id desired timeout_s poll_s start (fst y) (snd y)"
  using assms
proof (induction E agent_id desired timeout_s poll_s start s y
       rule: wait_loop.raw_induct [rotated 1, consumes 1, case_names step])
  case (step loop E agent_id desired timeout_s poll_s start s y)
  obtain now s0 where t: "time_time E s = (now, s0)" by (cases "time_time E s")
  show ?case
  proof (cases "now - start < of_int timeout_s")
    case False
    with step(2) t
    have "y = (Inl (TimeoutError (''Timed out waiting for agent '' @ agent_id
                                   @ '' to reach '' @ desired)), s0)"
      by simp
    with t False show ?thesis by (simp del: append.simps add: wait_exit_timeout)
  next
    case True
    obtain r s1 where g: "api_get_agent E agent_id s0 = (r, s1)"
      by (cases "api_get_agent E agent_id s0")
    have pr: "poll_round E agent_id timeout_s start r s1"
      unfolding poll_round_def using t True g by blast
    show ?thesis
    proof (cases r)
      case (Inl e)
      with step(2) t True g have "y = (Inl e, s1)" by simp
      with pr Inl show ?thesis by (simp add: wait_exit_raised)
    next
      case (Inr resp)
      show ?thesis
      proof (cases "agent resp")
        case None
        with step(2) t True g Inr have "y = (Inl (KeyError ''agent''), s1)" by simp
        with pr Inr None show ?thesis by (simp add: wait_exit_no_agent)
      next
        case (Some a)
        let ?status = "dict_get a ''agentStatus''"
        consider (desired) "?status = Some desired"
          | (terminal) "?status \<noteq> Some desired"
              "?status = Some ''FAILED'' \<or> ?status = Some ''DELETING''"
          | (negative) "?status \<noteq> Some desired"
              "\<not> (?status = Some ''FAILED'' \<or> ?status = Some ''DELETING'')" "poll_s < 0"
          | (sleep) "?status \<noteq> Some desired"
              "\<not> (?status = Some ''FAILED'' \<or> ?status = Some ''DELETING'')" "\<not> poll_s < 0"
          by blast
        then show ?thesis
        proof cases
          case desired
          with step(2) t True g Inr Some have "y = (Inr desired, s1)" by simp
          with pr Inr Some desired show ?thesis by (simp add: wait_exit_desired)
        next
          case terminal
          then obtain st where st: "?status = Some st" "st = ''FAILED'' \<or> st = ''DELETING''"
            "st \<noteq> desired"
            by auto
          with step(2) t True g Inr Some terminal
          have "y = (Inl (RuntimeError (''Agent moved to terminal state: '' @ st)), s1)"
            by (auto simp: format_opt_def)
          with pr Inr Some st show ?thesis by (simp del: append.simps add: wait_exit_terminal)
        next
          case negative
          with step(2) t True g Inr Some
          have "y = (Inl (ValueError ''sleep length must be non-negative''), s1)" by simp
          with pr Inr negative show ?thesis by (simp add: wait_exit_negative)
        next
          case sleep
          with step(2) t True g Inr Some
          have "loop E agent_id desired timeout_s poll_s start (time_sleep E poll_s s1) = Some y"
            by simp
          then show ?thesis by (rule step(1))
        qed
      qed
    qed
  qed
qed


lemma wait_loop_terminates:
  fixes clock :: "'s \<Rightarrow> real"
  assumes d: "0 < \<delta>"
    and T: "\<And>s. \<exists>s'. time_time E s = (clock s, s') \<and> clock s \<le> clock s'"
    and G: "\<And>s r s'. api_get_agent E agent_id s = (r, s') \<Longrightarrow> clock s \<le> clock s'"
    and S: "\<And>s. clock s + \<delta> \<le> clock (time_sleep E poll_s s)"
  shows "\<exists>y. wait_loop E agent_id desired timeout_s poll_s start s = Some y"
proof (induction "nat \<lceil>(start + of_int timeout_s - clock s) / \<delta>\<rceil>" arbitrary: s
       rule: less_induct)
  case less
  obtain s0 where t: "time_time E s = (clock s, s0)" and t0: "clock s \<le> clock s0"
    using T [of s] by blast
  show ?case
  proof (cases "clock s - start < of_int timeout_s")
    case False
    with t show ?thesis by (subst wait_loop.simps) simp
  next
    case True
    obtain r s1 where g: "api_get_agent E agent_id s0 = (r, s1)"
      by (cases "api_get_agent E agent_id s0")
    have g1: "clock s0 \<le> clock s1" using G [OF g] .
    let ?s2 = "time_sleep E poll_s s1"
    have adv: "clock s + \<delta> \<le> clock ?s2" using S [of s1] t0 g1 by linarith
    let ?x = "(start + of_int timeout_s - clock s) / \<delta>"
    let ?x' = "(start + of_int timeout_s - clock ?s2) / \<delta>"
    have xpos: "0 < ?x" using True d by simp
    have "?x' \<le> ?x - 1"
    proof -
      have "start + of_int timeout_s - clock ?s2 \<le> (start + of_int timeout_s - clock s) - \<delta>"
        using adv by linarith
      then have "?x' \<le> ((start + of_int timeout_s - clock s) - \<delta>) / \<delta>"
        using d by (simp add: divide_right_mono)
      also have "\<dots> = ?x - 1" using d by (simp add: diff_divide_distrib)
      finally show ?thesis .
    qed
    then have "\<lceil>?x'\<rceil> \<le> \<lceil>?x\<rceil> - 1" by (metis ceiling_diff_one ceiling_mono)
    moreover have "1 \<le> \<lceil>?x\<rceil>" using xpos by linarith
    ultimately have "nat \<lceil>?x'\<rceil> < nat \<lceil>?x\<rceil>" by linarith
    then obtain y where rec:
      "wait_loop E agent_id desired timeout_s poll_s start ?s2 = Some y"
      using less by blast
    show ?thesis
      using t True g rec
      by (subst wait_loop.simps)
        (auto simp: Let_def simp del: append.simps split: sum.splits option.splits)
  qed
qed

lemma wait_loop_always_preparing:
  assumes "wait_loop E agent_id desired timeout_s poll_s start s = Some (res, s')"
    and P: "\<And>s r s'. api_get_agent E agent_id s = (r, s') \<Longrightarrow>
              \<exists>resp a. r = Inr resp \<and> agent resp = Some a
                       \<and> dict_get a ''agentStatus'' = Some ''PREPARING''"
    and "desired \<noteq> ''PREPARING''" and "0 \<le> poll_s"
  shows "res = Inl (TimeoutError (''Timed out waiting for agent '' @ agent_id
                                   @ '' to reach '' @ desired))"
proof -
  have pr: "\<And>r s'. poll_round E agent_id timeout_s start r s' \<Longrightarrow>
      \<exists>resp a. r = Inr resp \<and> agent resp = Some a
                       \<and> dict_get a ''agentStatus'' = Some ''PREPARING''"
    unfolding poll_round_def using P by blast
  have "wait_exit E agent_id desired timeout_s poll_s start res s'"
    using wait_loop_exits [OF assms(1)] by simp
  then show ?thesis
    unfolding wait_exit_def using assms(3,4)
    by (elim disjE exE conjE) (use pr in \<open>fastforce+\<close>)
qed


lemma wait_loop_first_poll:
  assumes "time_time E s = (now, s0)" and "now - start < of_int timeout_s"
    and "api_get_agent E agent_id s0 = (Inr resp, s1)" and "agent resp = Some a"
  shows "dict_get a ''agentStatus'' = Some desired \<Longrightarrow>
         wait_loop E agent_id desired timeout_s poll_s start s = Some (Inr desired, s1)"
    and "dict_get a ''agentStatus'' = Some st \<Longrightarrow> st = ''FAILED'' \<or> st = ''DELETING'' \<Longrightarrow>
         st \<noteq> desired \<Longrightarrow>
         wait_loop E agent_id desired timeout_s poll_s start s
         = Some (Inl (RuntimeError (''Agent moved to terminal state: '' @ st)), s1)"
  using assms
  by (subst wait_loop.simps, simp add: format_opt_def del: append.simps)+

lemma wait_loop_poll_raises:
  assumes "time_time E s = (now, s0)" and "now - start < of_int timeout_s"
    and "api_get_agent E agent_id s0 = (Inl e, s1)"
  shows "wait_loop E agent_id desired timeout_s poll_s start s = Some (Inl e, s1)"
  using assms by (subst wait_loop.simps) simp

lemma prepare_cmd_steps:
  "(api_prepare_agent E agent_id s = (Inl e, s1) \<longrightarrow>
      prepare_cmd E agent_id s = Some (Inl e, s1))
   \<and> (api_prepare_agent E agent_id s = (Inr ack, s1) \<longrightarrow>
      prepare_cmd E agent_id s = wait_for_status E agent_id ''PREPARED'' 600 10 s1)"
  by (simp add: prepare_cmd_def prepare_agent_def)

text \<open>
  Claim C2, as stated, fails when a poll itself raises: against a service that throttles
  \<open>get_agent\<close>, \<open>wait_for_status\<close> ends at the first poll with the service's own error,
  which is neither the desired status, nor the terminal-state error, nor the timeout.
\<close>

theorem wait_for_status_poll_raises:
  "wait_for_status throttled_env ''A1'' ''PREPARED'' 600 10 0 = Some (Inl throttled, 0)
   \<and> error_code throttled = Some ''ThrottlingException''"
proof -
  have t: "time_time throttled_env 0 = (0, 0)"
    by (simp add: throttled_env_def clock_env_def)
  have g: "api_get_agent throttled_env ''A1'' 0 = (Inl throttled, 0)"
    by (simp add: throttled_env_def)
  have "wait_loop throttled_env ''A1'' ''PREPARED'' 600 10 0 0 = Some (Inl throttled, 0)"
    using t _ g by (rule wait_loop_poll_raises) simp
  with t show ?thesis by (simp add: wait_for_status_def throttled_def)
qed

text \<open>
  Claim C2, amended. Let the clock never run backwards while it is read or while
  \<open>get_agent\<close> is called, and let every sleep of the poll interval advance it by at
  least some \<open>\<delta> > 0\<close>. Then \<open>wait_for_status\<close> returns, and it ends in one of the ways
  of \<open>wait_exit\<close>: with the desired status, polled inside the bound; with the
  terminal-state error for a polled \<open>FAILED\<close> or \<open>DELETING\<close> that is not the desired
  status; with the timeout error, naming the agent and the desired status, after the clock
  was read at or beyond the bound; or with what the poll or the sleep raised. Against a
  service that reports \<open>PREPARING\<close> at every poll (the desired status being another, the
  poll interval not negative) it ends with the timeout error; a terminal status at the
  first poll ends it there, in the state the poll left. \<open>prepare_cmd\<close> calls
  \<open>prepare_agent\<close> once, lets its error through, and otherwise waits for \<open>PREPARED\<close>.
\<close>

theorem wait_for_status_exits:
  fixes clock :: "'s \<Rightarrow> real"
  assumes "0 < \<delta>"
    and "\<forall>s. \<exists>s'. time_time E s = (clock s, s') \<and> clock s \<le> clock s'"
    and "\<forall>s r s'. api_get_agent E agent_id s = (r, s') \<longrightarrow> clock s \<le> clock s'"
    and "\<forall>s. clock s + \<delta> \<le> clock (time_sleep E poll_s s)"
  shows "(\<exists>start s0 res s'.
            time_time E s = (start, s0)
          \<and> wait_for_status E agent_id desired timeout_s poll_s s = Some (res, s')
          \<and> wait_exit E agent_id desired timeout_s poll_s start res s'
          \<and> ((\<forall>sp r sq. api_get_agent E agent_id sp = (r, sq) \<longrightarrow>
                  (\<exists>resp a. r = Inr resp \<and> agent resp = Some a
                            \<and> dict_get a ''agentStatus'' = Some ''PREPARING''))
               \<and> desired \<noteq> ''PREPARING'' \<and> 0 \<le> poll_s
              \<longrightarrow> res = Inl (TimeoutError (''Timed out waiting for agent '' @ agent_id
                                            @ '' to reach '' @ desired)))
          \<and> (\<forall>now s1 resp s2 a st.
                time_time E s0 = (now, s1) \<and> now - start < of_int timeout_s
                \<and> api_get_agent E agent_id s1 = (Inr resp, s2) \<and> agent resp = Some a
                \<and> dict_get a ''agentStatus'' = Some st
                \<and> (st = ''FAILED'' \<or> st = ''DELETING'') \<and> st \<noteq> desired
              \<longrightarrow> res = Inl (RuntimeError (''Agent moved to terminal state: '' @ st))
                  \<and> s' = s2))
       \<and> (\<forall>e s1. api_prepare_agent E agent_id s = (Inl e, s1) \<longrightarrow>
             prepare_cmd E agent_id s = Some (Inl e, s1))
       \<and> (\<forall>ack s1. api_prepare_agent E agent_id s = (Inr ack, s1) \<longrightarrow>
             prepare_cmd E agent_id s = wait_for_status E agent_id ''PREPARED'' 600 10 s1)"
proof -
  obtain start s0 where t: "time_time E s = (start, s0)" by (cases "time_time E s")
  obtain y where "wait_loop E agent_id desired timeout_s poll_s start s0 = Some y"
    using wait_loop_terminates
      [of \<delta> E clock agent_id poll_s desired timeout_s start s0] assms
    by blast
  then obtain res s' where
    w: "wait_loop E agent_id desired timeout_s poll_s start s0 = Some (res, s')"
    by (cases y) auto
  have run: "wait_for_status E agent_id desired timeout_s poll_s s = Some (res, s')"
    using t w by (simp add: wait_for_status_def)
  have ex: "wait_exit E agent_id desired timeout_s poll_s start res s'"
    using wait_loop_exits [OF w] by simp
  have prep: "(\<forall>sp r sq. api_get_agent E agent_id sp = (r, sq) \<longrightarrow>
                  (\<exists>resp a. r = Inr resp \<and> agent resp = Some a
                            \<and> dict_get a ''agentStatus'' = Some ''PREPARING''))
               \<and> desired \<noteq> ''PREPARING'' \<and> 0 \<le> poll_s
              \<longrightarrow> res = Inl (TimeoutError (''Timed out waiting for agent '' @ agent_id
                                            @ '' to reach '' @ desired))"
  proof
    assume h: "(\<forall>sp r sq. api_get_agent E agent_id sp = (r, sq) \<longrightarrow>
                  (\<exists>resp a. r = Inr resp \<and> agent resp = Some a
                            \<and> dict_get a ''agentStatus'' = Some ''PREPARING''))
               \<and> desired \<noteq> ''PREPARING'' \<and> 0 \<le> poll_s"
    show "res = Inl (TimeoutError (''Timed out waiting for agent '' @ agent_id
                                            @ '' to reach '' @ desired))"
      by (rule wait_loop_always_preparing [OF w]) (use h in blast)+
  qed
  have first: "\<forall>now s1 resp s2 a st.
                time_time E s0 = (now, s1) \<and> now - start < of_int timeout_s
                \<and> api_get_agent E agent_id s1 = (Inr resp, s2) \<and> agent resp = Some a
                \<and> dict_get a ''agentStatus'' = Some st
                \<and> (st = ''FAILED'' \<or> st = ''DELETING'') \<and> st \<noteq> desired
              \<longrightarrow> res = Inl (RuntimeError (''Agent moved to terminal state: '' @ st))
                  \<and> s' = s2"
  proof (intro allI impI)
    fix now s1 resp s2 a st
    assume h: "time_time E s0 = (now, s1) \<and> now - start < of_int timeout_s
                \<and> api_get_agent E agent_id s1 = (Inr resp, s2) \<and> agent resp = Some a
                \<and> dict_get a ''agentStatus'' = Some st
                \<and> (st = ''FAILED'' \<or> st = ''DELETING'') \<and> st \<noteq> desired"
    then have "wait_loop E agent_id desired timeout_s poll_s start s0
         = Some (Inl (RuntimeError (''Agent moved to terminal state: '' @ st)), s2)"
      by (intro wait_loop_first_poll(2) [where a = a and resp = resp and now = now
            and ?s0.0 = s1]) blast+
    with w show "res = Inl (RuntimeError (''Agent moved to terminal state: '' @ st))
                  \<and> s' = s2"
      by simp
  qed
  from t run ex prep first
  have "\<exists>start s0 res s'.
            time_time E s = (start, s0)
          \<and> wait_for_status E agent_id desired timeout_s poll_s s = Some (res, s')
          \<and> wait_exit E agent_id desired timeout_s poll_s start res s'
          \<and> ((\<forall>sp r sq. api_get_agent E agent_id sp = (r, sq) \<longrightarrow>
                  (\<exists>resp a. r = Inr resp \<and> agent resp = Some a
                            \<and> dict_get a ''agentStatus'' = Some ''PREPARING''))
               \<and> desired \<noteq> ''PREPARING'' \<and> 0 \<le> poll_s
              \<longrightarrow> res = Inl (TimeoutError (''Timed out waiting for agent '' @ agent_id
                                            @ '' to reach '' @ desired)))
          \<and> (\<forall>now s1 resp s2 a st.
                time_time E s0 = (now, s1) \<and> now - start < of_int timeout_s
                \<and> api_get_agent E agent_id s1 = (Inr resp, s2) \<and> agent resp = Some a
                \<and> dict_get a ''agentStatus'' = Some st
                \<and> (st = ''FAILED'' \<or> st = ''DELETING'') \<and> st \<noteq> desired
              \<longrightarrow> res = Inl (RuntimeError (''Agent moved to terminal state: '' @ st))
                  \<and> s' = s2)"
    by (intro exI conjI)
  moreover have "\<forall>e s1. api_prepare_agent E agent_id s = (Inl e, s1) \<longrightarrow>
             prepare_cmd E agent_id s = Some (Inl e, s1)"
    by (simp add: prepare_cmd_def prepare_agent_def)
  moreover have "\<forall>ack s1. api_prepare_agent E agent_id s = (Inr ack, s1) \<longrightarrow>
             prepare_cmd E agent_id s = wait_for_status E agent_id ''PREPARED'' 600 10 s1"
    by (simp add: prepare_cmd_def prepare_agent_def)
  ultimately show ?thesis by (intro conjI)
qed


theorem wait_for_status_exits_witness:
  "(\<exists>s'. wait_for_status preparing_env ''A1'' ''PREPARED'' 600 10 0
           = Some (Inl (TimeoutError ''Timed out waiting for agent A1 to reach PREPARED''), s'))
   \<and> wait_for_status failed_env ''A1'' ''PREPARED'' 600 10 0
       = Some (Inl (RuntimeError ''Agent moved to terminal state: FAILED''), 0)
   \<and> prepare_cmd failed_env ''A1'' 0
       = Some (Inl (RuntimeError ''Agent moved to terminal state: FAILED''), 0)"
proof -
  have pT: "\<forall>s. \<exists>s'. time_time preparing_env s = (real s, s') \<and> real s \<le> real s'"
    by (simp add: preparing_env_def clock_env_def)
  have pG: "\<forall>s r s'. api_get_agent preparing_env ''A1'' s = (r, s') \<longrightarrow> real s \<le> real s'"
    by (auto simp: preparing_env_def)
  have pS: "\<forall>s. real s + 10 \<le> real (time_sleep preparing_env 10 s)"
    by (simp add: preparing_env_def clock_env_def)
  have pP: "\<forall>sp r sq. api_get_agent preparing_env ''A1'' sp = (r, sq) \<longrightarrow>
              (\<exists>resp a. r = Inr resp \<and> agent resp = Some a
                        \<and> dict_get a ''agentStatus'' = Some ''PREPARING'')"
    by (auto simp: preparing_env_def status_record_def dict_get_def)
  have d: "(0::real) < 10" by simp
  from wait_for_status_exits [of 10 preparing_env real "''A1''" 10 0 "''PREPARED''" 600,
      OF d pT pG pS]
  obtain res s' where
    "wait_for_status preparing_env ''A1'' ''PREPARED'' 600 10 0 = Some (res, s')"
    "(\<forall>sp r sq. api_get_agent preparing_env ''A1'' sp = (r, sq) \<longrightarrow>
         (\<exists>resp a. r = Inr resp \<and> agent resp = Some a
                   \<and> dict_get a ''agentStatus'' = Some ''PREPARING''))
      \<and> ''PREPARED'' \<noteq> ''PREPARING'' \<and> (0::int) \<le> 10
     \<longrightarrow> res = Inl (TimeoutError (''Timed out waiting for agent '' @ ''A1''
                                   @ '' to reach '' @ ''PREPARED''))"
    by blast
  with pP have a: "\<exists>s'. wait_for_status preparing_env ''A1'' ''PREPARED'' 600 10 0
           = Some (Inl (TimeoutError ''Timed out waiting for agent A1 to reach PREPARED''), s')"
    by auto
  have fT: "\<forall>s. \<exists>s'. time_time failed_env s = (real s, s') \<and> real s \<le> real s'"
    by (simp add: failed_env_def clock_env_def)
  have fG: "\<forall>s r s'. api_get_agent failed_env ''A1'' s = (r, s') \<longrightarrow> real s \<le> real s'"
    by (auto simp: failed_env_def)
  have fS: "\<forall>s. real s + 10 \<le> real (time_sleep failed_env 10 s)"
    by (simp add: failed_env_def clock_env_def)
  have ft: "time_time failed_env 0 = (0, 0)" by (simp add: failed_env_def clock_env_def)
  have fg: "api_get_agent failed_env ''A1'' 0
            = (Inr (no_response\<lparr>agent := Some (status_record ''A1'' ''FAILED'')\<rparr>), 0)"
    by (simp add: failed_env_def)
  have fs: "dict_get (status_record ''A1'' ''FAILED'') ''agentStatus'' = Some ''FAILED''"
    by (simp add: status_record_def dict_get_def)
  note th = wait_for_status_exits [of 10 failed_env real "''A1''" 10 0 "''PREPARED''" 600,
      OF d fT fG fS]
  from th obtain start s0 res s' where
    f1: "time_time failed_env 0 = (start, s0)"
    and f2: "wait_for_status failed_env ''A1'' ''PREPARED'' 600 10 0 = Some (res, s')"
    and f3: "\<forall>now s1 resp s2 a st.
                time_time failed_env s0 = (now, s1) \<and> now - start < of_int 600
                \<and> api_get_agent failed_env ''A1'' s1 = (Inr resp, s2) \<and> agent resp = Some a
                \<and> dict_get a ''agentStatus'' = Some st
                \<and> (st = ''FAILED'' \<or> st = ''DELETING'') \<and> st \<noteq> ''PREPARED''
              \<longrightarrow> res = Inl (RuntimeError (''Agent moved to terminal state: '' @ st))
                  \<and> s' = s2"
    by blast
  from f1 ft have st: "start = 0" "s0 = 0" by simp_all
  have "res = Inl (RuntimeError (''Agent moved to terminal state: '' @ ''FAILED'')) \<and> s' = 0"
    using f3 [rule_format, of 0 0 "no_response\<lparr>agent := Some (status_record ''A1'' ''FAILED'')\<rparr>"
        0 "status_record ''A1'' ''FAILED''" "''FAILED''"]
      ft fg fs st
    by simp
  with f2 have b: "wait_for_status failed_env ''A1'' ''PREPARED'' 600 10 0
       = Some (Inl (RuntimeError ''Agent moved to terminal state: FAILED''), 0)"
    by simp
  have "api_prepare_agent failed_env ''A1'' 0 = (Inr no_response, 0)"
    by (simp add: failed_env_def clock_env_def)
  with th b have c: "prepare_cmd failed_env ''A1'' 0
       = Some (Inl (RuntimeError ''Agent moved to terminal state: FAILED''), 0)"
    by simp
  from a b c show ?thesis by blast
qed

text \<open>
  Claim C9. In every round the polled status is compared with the desired one before it
  is tested for being terminal: when the desired status is itself \<open>FAILED\<close> or
  \<open>DELETING\<close> and a poll inside the bound reports it, the loop returns it and raises
  nothing. \<open>wait_for_status\<close> is the loop started at the first reading of the clock.
\<close>

theorem wait_desired_before_terminal:
  assumes "desired = ''FAILED'' \<or> desired = ''DELETING''"
    and "time_time E s = (now, s0)" and "now - start < of_int timeout_s"
    and "api_get_agent E agent_id s0 = (Inr resp, s1)" and "agent resp = Some a"
    and "dict_get a ''agentStatus'' = Some desired"
  shows "wait_loop E agent_id desired timeout_s poll_s start s = Some (Inr desired, s1)
         \<and> (time_time E s00 = (start, s) \<longrightarrow>
              wait_for_status E agent_id desired timeout_s poll_s s00
              = Some (Inr desired, s1))"
proof -
  have "wait_loop E agent_id desired timeout_s poll_s start s = Some (Inr desired, s1)"
    using assms(2-6) by (rule wait_loop_first_poll(1))
  then show ?thesis by (simp add: wait_for_status_def)
qed

theorem wait_desired_before_terminal_witness:
  "time_time failed_env 0 = (0, 0)
   \<and> api_get_agent failed_env ''A1'' 0
       = (Inr (no_response\<lparr>agent := Some (status_record ''A1'' ''FAILED'')\<rparr>), 0)
   \<and> dict_get (status_record ''A1'' ''FAILED'') ''agentStatus'' = Some ''FAILED''
   \<and> wait_for_status failed_env ''A1'' ''FAILED'' 600 10 0 = Some (Inr ''FAILED'', 0)"
proof -
  have ft: "time_time failed_env 0 = (0, 0)" by (simp add: failed_env_def clock_env_def)
  have fg: "api_get_agent failed_env ''A1'' 0
            = (Inr (no_response\<lparr>agent := Some (status_record ''A1'' ''FAILED'')\<rparr>), 0)"
    by (simp add: failed_env_def)
  have fa: "agent (no_response\<lparr>agent := Some (status_record ''A1'' ''FAILED'')\<rparr>)
            = Some (status_record ''A1'' ''FAILED'')"
    by simp
  have fs: "dict_get (status_record ''A1'' ''FAILED'') ''agentStatus'' = Some ''FAILED''"
    by (simp add: status_record_def dict_get_def)
  have b: "(0::real) - 0 < of_int 600" by simp
  have "wait_for_status failed_env ''A1'' ''FAILED'' 600 10 0 = Some (Inr ''FAILED'', 0)"
    using wait_desired_before_terminal [OF disjI1 [OF refl] ft b fg fa fs,
        THEN conjunct2, THEN mp, OF ft] .
  with ft fg fs show ?thesis by blast
qed

end
